theory Spec2Isabelle
  imports Main "HOL-Library.FSet"
begin

section \<open>Python strings\<close>

text \<open>
  Strings are lists of characters. \<open>str.strip\<close>, \<open>str.lower\<close> and \<open>str.upper\<close> are
  given on the characters a \<open>char\<close> can hold: the white space of \<open>str.isspace\<close> below
  code point 256, and the letters of ASCII.
\<close>

definition isspace :: "char \<Rightarrow> bool" where
  "isspace c =
     (c \<in> set [CHR 0x09, CHR 0x0A, CHR 0x0B, CHR 0x0C, CHR 0x0D, CHR 0x1C, CHR 0x1D, CHR 0x1E,
                CHR 0x1F, CHR 0x20, CHR 0x85, CHR 0xA0])"

definition lstrip :: "string \<Rightarrow> string" where
  "lstrip s = dropWhile isspace s"

definition rstrip :: "string \<Rightarrow> string" where
  "rstrip s = rev (dropWhile isspace (rev s))"

definition strip :: "string \<Rightarrow> string" where
  "strip s = rstrip (lstrip s)"

fun translate :: "string \<Rightarrow> string \<Rightarrow> char \<Rightarrow> char" where
  "translate (a # as) (b # bs) c = (if c = a then b else translate as bs c)"
| "translate _ _ c = c"

definition lower_char :: "char \<Rightarrow> char" where
  "lower_char c = translate ''ABCDEFGHIJKLMNOPQRSTUVWXYZ'' ''abcdefghijklmnopqrstuvwxyz'' c"

definition upper_char :: "char \<Rightarrow> char" where
  "upper_char c = translate ''abcdefghijklmnopqrstuvwxyz'' ''ABCDEFGHIJKLMNOPQRSTUVWXYZ'' c"

definition lower :: "string \<Rightarrow> string" where
  "lower s = map lower_char s"

definition upper :: "string \<Rightarrow> string" where
  "upper s = map upper_char s"

definition startswith :: "string \<Rightarrow> string \<Rightarrow> bool" where
  "startswith s p = (take (length p) s = p)"

text \<open>\<open>str(i)\<close> of a non-negative integer: its decimal digits.\<close>

fun str_nat :: "nat \<Rightarrow> string" where
  "str_nat n =
     (if n < 10 then [''0123456789'' ! n]
      else str_nat (n div 10) @ [''0123456789'' ! (n mod 10)])"

declare str_nat.simps [simp del]

text \<open>\<open>sep.join(parts)\<close>.\<close>

fun join :: "string \<Rightarrow> string list \<Rightarrow> string" where
  "join sep [] = []"
| "join sep [x] = x"
| "join sep (x # y # ys) = x @ sep @ join sep (y # ys)"


section \<open>The JSON decoder\<close>

text \<open>
  \<open>json.loads\<close> belongs to the Python standard library. It is modelled as a lexer
  followed by a pushdown recogniser, both one pass over their input, that accept the
  texts the strict decoder of CPython accepts: one JSON value between optional white
  space, with the literals \<open>NaN\<close>, \<open>Infinity\<close> and \<open>-Infinity\<close> in addition.
  \<open>None\<close> stands for \<open>JSONDecodeError\<close>. A number keeps its text; a string is the list
  of its code points, escapes resolved; an object keeps the first position and the last
  value of a repeated key, as a \<open>dict\<close> does.
\<close>

datatype json =
    JNull
  | JBool bool
  | JNumber string
  | JString "nat list"
  | JArray "json list"
  | JObject "(nat list \<times> json) list"

datatype token =
    T_lbrace | T_rbrace | T_lbracket | T_rbracket | T_colon | T_comma
  | T_string "nat list"
  | T_scalar json

datatype nstate = N_minus | N_zero | N_int | N_dot | N_frac | N_e | N_esign | N_exp

datatype lmode =
    M_default
  | M_string "nat list"
  | M_escape "nat list"
  | M_unicode "nat list" "nat list"
  | M_number nstate string
  | M_word string

definition json_ws :: "char \<Rightarrow> bool" where
  "json_ws c = (c \<in> set [CHR '' '', CHR 0x09, CHR 0x0A, CHR 0x0D])"

definition is_digit :: "char \<Rightarrow> bool" where
  "is_digit c = (c \<in> set ''0123456789'')"

definition is_letter :: "char \<Rightarrow> bool" where
  "is_letter c = (c \<in> set ''abcdefghijklmnopqrstuvwxyzABCDEFGHIJKLMNOPQRSTUVWXYZ'')"

definition hex_value :: "char \<Rightarrow> nat option" where
  "hex_value c =
     (let n = (of_char c :: nat) in
      if 48 \<le> n \<and> n \<le> 57 then Some (n - 48)
      else if 97 \<le> n \<and> n \<le> 102 then Some (n - 87)
      else if 65 \<le> n \<and> n \<le> 70 then Some (n - 55)
      else None)"

definition escape_value :: "char \<Rightarrow> nat option" where
  "escape_value c =
     (if c = CHR 0x22 then Some 34
      else if c = CHR 0x5C then Some 92
      else if c = CHR ''/'' then Some 47
      else if c = CHR ''b'' then Some 8
      else if c = CHR ''f'' then Some 12
      else if c = CHR ''n'' then Some 10
      else if c = CHR ''r'' then Some 13
      else if c = CHR ''t'' then Some 9
      else None)"

definition word_token :: "string \<Rightarrow> token option" where
  "word_token w =
     (if w = ''null'' then Some (T_scalar JNull)
      else if w = ''true'' then Some (T_scalar (JBool True))
      else if w = ''false'' then Some (T_scalar (JBool False))
      else if w = ''NaN'' then Some (T_scalar (JNumber ''NaN''))
      else if w = ''Infinity'' then Some (T_scalar (JNumber ''Infinity''))
      else if w = ''-Infinity'' then Some (T_scalar (JNumber ''-Infinity''))
      else None)"

definition number_accepting :: "nstate \<Rightarrow> bool" where
  "number_accepting n = (n = N_zero \<or> n = N_int \<or> n = N_frac \<or> n = N_exp)"

text \<open>
  The number automaton follows the pattern
  \<open>-?(0|[1-9][0-9]*)(\.[0-9]+)?([eE][-+]?[0-9]+)?\<close>: the next state on a character
  that continues the number, \<open>None\<close> on one that does not.
\<close>

definition number_next :: "nstate \<Rightarrow> char \<Rightarrow> nstate option" where
  "number_next n c =
     (case n of
        N_minus \<Rightarrow> (if c = CHR ''0'' then Some N_zero else if is_digit c then Some N_int else None)
      | N_zero \<Rightarrow> (if c = CHR ''.'' then Some N_dot
                   else if c = CHR ''e'' \<or> c = CHR ''E'' then Some N_e else None)
      | N_int \<Rightarrow> (if is_digit c then Some N_int
                  else if c = CHR ''.'' then Some N_dot
                  else if c = CHR ''e'' \<or> c = CHR ''E'' then Some N_e else None)
      | N_dot \<Rightarrow> (if is_digit c then Some N_frac else None)
      | N_frac \<Rightarrow> (if is_digit c then Some N_frac
                   else if c = CHR ''e'' \<or> c = CHR ''E'' then Some N_e else None)
      | N_e \<Rightarrow> (if c = CHR ''+'' \<or> c = CHR ''-'' then Some N_esign
                else if is_digit c then Some N_exp else None)
      | N_esign \<Rightarrow> (if is_digit c then Some N_exp else None)
      | N_exp \<Rightarrow> (if is_digit c then Some N_exp else None))"

text \<open>A character met outside strings, numbers and words.\<close>

definition lex_default :: "char \<Rightarrow> (lmode \<times> token list) option" where
  "lex_default c =
     (if json_ws c then Some (M_default, [])
      else if c = CHR ''{'' then Some (M_default, [T_lbrace])
      else if c = CHR ''}'' then Some (M_default, [T_rbrace])
      else if c = CHR ''['' then Some (M_default, [T_lbracket])
      else if c = CHR '']'' then Some (M_default, [T_rbracket])
      else if c = CHR '':'' then Some (M_default, [T_colon])
      else if c = CHR '','' then Some (M_default, [T_comma])
      else if c = CHR 0x22 then Some (M_string [], [])
      else if c = CHR ''-'' then Some (M_number N_minus [c], [])
      else if c = CHR ''0'' then Some (M_number N_zero [c], [])
      else if is_digit c then Some (M_number N_int [c], [])
      else if is_letter c then Some (M_word [c], [])
      else None)"

text \<open>
  One character in a mode. A number or a word ends at the first character that does not
  continue it, which is then read in the default mode. A control character inside a
  string is an error, as in the strict decoder.
\<close>

definition lex_step :: "lmode \<Rightarrow> char \<Rightarrow> (lmode \<times> token list) option" where
  "lex_step m c =
     (case m of
        M_default \<Rightarrow> lex_default c
      | M_string acc \<Rightarrow>
          (if c = CHR 0x22 then Some (M_default, [T_string acc])
           else if c = CHR 0x5C then Some (M_escape acc, [])
           else if (of_char c :: nat) < 32 then None
           else Some (M_string (acc @ [of_char c]), []))
      | M_escape acc \<Rightarrow>
          (if c = CHR ''u'' then Some (M_unicode acc [], [])
           else (case escape_value c of
                   None \<Rightarrow> None
                 | Some v \<Rightarrow> Some (M_string (acc @ [v]), [])))
      | M_unicode acc ds \<Rightarrow>
          (case hex_value c of
             None \<Rightarrow> None
           | Some d \<Rightarrow>
               (if length ds = 3
                then Some (M_string (acc @ [foldl (\<lambda>a b. 16 * a + b) 0 (ds @ [d])]), [])
                else Some (M_unicode acc (ds @ [d]), [])))
      | M_number n txt \<Rightarrow>
          (case number_next n c of
             Some n' \<Rightarrow> Some (M_number n' (txt @ [c]), [])
           | None \<Rightarrow>
               (if n = N_minus \<and> c = CHR ''I'' then Some (M_word (txt @ [c]), [])
                else if number_accepting n
                then (case lex_default c of
                        None \<Rightarrow> None
                      | Some (m', ts) \<Rightarrow> Some (m', T_scalar (JNumber txt) # ts))
                else None))
      | M_word w \<Rightarrow>
          (if is_letter c then Some (M_word (w @ [c]), [])
           else (case word_token w of
                   None \<Rightarrow> None
                 | Some t \<Rightarrow>
                     (case lex_default c of
                        None \<Rightarrow> None
                      | Some (m', ts) \<Rightarrow> Some (m', t # ts)))))"

definition lex_end :: "lmode \<Rightarrow> token list option" where
  "lex_end m =
     (case m of
        M_default \<Rightarrow> Some []
      | M_number n txt \<Rightarrow> (if number_accepting n then Some [T_scalar (JNumber txt)] else None)
      | M_word w \<Rightarrow> (case word_token w of None \<Rightarrow> None | Some t \<Rightarrow> Some [t])
      | _ \<Rightarrow> None)"

fun lex :: "lmode \<Rightarrow> string \<Rightarrow> token list option" where
  "lex m [] = lex_end m"
| "lex m (c # cs) =
     (case lex_step m c of
        None \<Rightarrow> None
      | Some (m', ts) \<Rightarrow> (case lex m' cs of None \<Rightarrow> None | Some rest \<Rightarrow> Some (ts @ rest)))"

text \<open>
  Two escapes \<open>\uD800..\uDBFF\<close> and \<open>\uDC00..\uDFFF\<close> in a row are one code point.
  A character of the text is below 256, so a surrogate in a decoded string comes from
  an escape.
\<close>

fun join_surrogates :: "nat list \<Rightarrow> nat list" where
  "join_surrogates (h # l # rest) =
     (if 55296 \<le> h \<and> h \<le> 56319 \<and> 56320 \<le> l \<and> l \<le> 57343
      then (65536 + (h - 55296) * 1024 + (l - 56320)) # join_surrogates rest
      else h # join_surrogates (l # rest))"
| "join_surrogates xs = xs"

text \<open>\<open>d[k] = v\<close> on a dictionary kept in insertion order.\<close>

fun dict_set :: "'k \<Rightarrow> 'v \<Rightarrow> ('k \<times> 'v) list \<Rightarrow> ('k \<times> 'v) list" where
  "dict_set k v [] = [(k, v)]"
| "dict_set k v ((k', v') # kvs) =
     (if k' = k then (k, v) # kvs else (k', v') # dict_set k v kvs)"

datatype frame =
    In_array "json list"
  | In_object "(nat list \<times> json) list" "nat list option"

datatype pstate =
    P_value | P_first_elem | P_first_key | P_key | P_colon | P_after | P_done json

text \<open>A finished value goes into the container on top of the stack, or is the result.\<close>

fun push_value :: "json \<Rightarrow> frame list \<Rightarrow> (pstate \<times> frame list) option" where
  "push_value v [] = Some (P_done v, [])"
| "push_value v (In_array xs # st) = Some (P_after, In_array (xs @ [v]) # st)"
| "push_value v (In_object kvs (Some k) # st) = Some (P_after, In_object (dict_set k v kvs) None # st)"
| "push_value v (In_object kvs None # st) = None"

fun begin_value :: "token \<Rightarrow> frame list \<Rightarrow> (pstate \<times> frame list) option" where
  "begin_value T_lbracket st = Some (P_first_elem, In_array [] # st)"
| "begin_value T_lbrace st = Some (P_first_key, In_object [] None # st)"
| "begin_value (T_string s) st = push_value (JString (join_surrogates s)) st"
| "begin_value (T_scalar v) st = push_value v st"
| "begin_value _ st = None"

fun close_array :: "frame list \<Rightarrow> (pstate \<times> frame list) option" where
  "close_array (In_array xs # st) = push_value (JArray xs) st"
| "close_array _ = None"

fun close_object :: "frame list \<Rightarrow> (pstate \<times> frame list) option" where
  "close_object (In_object kvs None # st) = push_value (JObject kvs) st"
| "close_object _ = None"

fun set_key :: "nat list \<Rightarrow> frame list \<Rightarrow> (pstate \<times> frame list) option" where
  "set_key k (In_object kvs None # st) = Some (P_colon, In_object kvs (Some k) # st)"
| "set_key k _ = None"

fun parse_step :: "pstate \<Rightarrow> frame list \<Rightarrow> token \<Rightarrow> (pstate \<times> frame list) option" where
  "parse_step P_value st t = begin_value t st"
| "parse_step P_first_elem st t = (if t = T_rbracket then close_array st else begin_value t st)"
| "parse_step P_first_key st t =
     (case t of T_rbrace \<Rightarrow> close_object st
      | T_string k \<Rightarrow> set_key (join_surrogates k) st
      | _ \<Rightarrow> None)"
| "parse_step P_key st t = (case t of T_string k \<Rightarrow> set_key (join_surrogates k) st | _ \<Rightarrow> None)"
| "parse_step P_colon st t = (if t = T_colon then Some (P_value, st) else None)"
| "parse_step P_after st t =
     (case t of
        T_comma \<Rightarrow> (case st of In_array xs # st' \<Rightarrow> Some (P_value, st)
                    | In_object kvs k # st' \<Rightarrow> Some (P_key, st)
                    | [] \<Rightarrow> None)
      | T_rbracket \<Rightarrow> close_array st
      | T_rbrace \<Rightarrow> close_object st
      | _ \<Rightarrow> None)"
| "parse_step (P_done v) st t = None"

fun parse_tokens :: "pstate \<Rightarrow> frame list \<Rightarrow> token list \<Rightarrow> json option" where
  "parse_tokens p st [] = (case p of P_done v \<Rightarrow> Some v | _ \<Rightarrow> None)"
| "parse_tokens p st (t # ts) =
     (case parse_step p st t of None \<Rightarrow> None | Some (p', st') \<Rightarrow> parse_tokens p' st' ts)"

definition json_loads :: "string \<Rightarrow> json option" where
  "json_loads s = (case lex M_default s of None \<Rightarrow> None | Some ts \<Rightarrow> parse_tokens P_value [] ts)"


section \<open>response\_parser.py: arguments of a partial function call\<close>

text \<open>
  \<open>parse_partial_args\<close> reads the \<open>arguments\<close> entry of the partial function call
  (\<open>None\<close> when the entry is missing) and tries four parses in turn. The decoder is a
  parameter of \<open>parse_partial_args_with\<close>, and \<open>parse_partial_args\<close> runs it with
  \<open>json_loads\<close>.
\<close>

definition parse_partial_args_with :: "(string \<Rightarrow> 'j option) \<Rightarrow> string option \<Rightarrow> 'j option" where
  "parse_partial_args_with loads arguments =
     (case arguments of
        None \<Rightarrow> None
      | Some data \<Rightarrow>
          if data = [] then None
          else (case loads data of
                  Some v \<Rightarrow> Some v
                | None \<Rightarrow>
                    (case loads (data @ '']}'') of
                       Some v \<Rightarrow> Some v
                     | None \<Rightarrow>
                         (case loads (data @ ''}]}'') of
                            Some v \<Rightarrow> Some v
                          | None \<Rightarrow>
                              (case loads (data @ [CHR 0x22] @ ''}]}'') of
                                 Some v \<Rightarrow> Some v
                               | None \<Rightarrow> None)))))"

definition parse_partial_args :: "string option \<Rightarrow> json option" where
  "parse_partial_args arguments = parse_partial_args_with json_loads arguments"


section \<open>Effects, exceptions and collaborators\<close>

text \<open>
  What the code tells the user and asks of its collaborators is written to a log, in
  order: the three output channels of \<open>io\<close>, a confirmation prompt that was shown, and
  the calls that change the disk or the repository.
\<close>

datatype io_event =
    Tool_output string
  | Tool_warning string
  | Tool_error string
  | Confirm_ask string string
  | Touch_file string
  | Git_add string
  | Repo_commit "string fset" "string option" bool
  | Cmd_diff

text \<open>
  An exception is a value: its class, as far as a handler of the code tells classes
  apart, and the text \<open>str(e)\<close>. All three are subclasses of \<open>Exception\<close>.
\<close>

datatype exception_class = RemoteProtocolError | ValueError | OtherException

datatype py_exception = Exception exception_class string

fun class_of :: "py_exception \<Rightarrow> exception_class" where
  "class_of (Exception c m) = c"

fun exception_str :: "py_exception \<Rightarrow> string" where
  "exception_str (Exception c m) = m"

datatype 'a outcome = Returns 'a | Raises py_exception


section \<open>tool\_use.py: tool calls\<close>

text \<open>
  A tool call of the response carries an identifier, a type and a function with a name
  and an argument string. An advertised tool is a dictionary whose \<open>function\<close> entry,
  if present, may hold a \<open>name\<close>. A server is an object with a name; \<open>server_ident\<close>
  tells two objects of the same name apart, so that equality of the record is the
  identity that the dispatch dictionary hashes on.
\<close>

record function_call =
  fn_name :: string
  fn_arguments :: string

record tool_call =
  tc_id :: string
  tc_type :: string
  tc_function :: function_call

record function_schema =
  schema_name :: "string option"
  schema_description :: "string option"

record tool_schema =
  schema_function :: "function_schema option"

record mcp_server =
  server_name :: string
  server_ident :: nat

subsection \<open>Expansion of concatenated arguments (process\_tool\_calls)\<close>

text \<open>
  \<open>split_concatenated_json\<close> lives in \<open>aider.utils\<close>; it is the parameter \<open>split\<close>.
  \<open>expand_chunks\<close> is the loop over \<open>enumerate(json_chunks)\<close>: a blank chunk is
  skipped, and its index is not reused.
\<close>

definition derived_tool_call :: "tool_call \<Rightarrow> nat \<Rightarrow> string \<Rightarrow> tool_call" where
  "derived_tool_call tool_call i chunk =
     tool_call\<lparr>tc_id := tc_id tool_call @ ''-'' @ str_nat i,
               tc_function := (tc_function tool_call)\<lparr>fn_arguments := chunk\<rparr>\<rparr>"

fun expand_chunks :: "tool_call \<Rightarrow> nat \<Rightarrow> string list \<Rightarrow> tool_call list" where
  "expand_chunks tool_call i [] = []"
| "expand_chunks tool_call i (chunk # chunks) =
     (if strip chunk = [] then expand_chunks tool_call (Suc i) chunks
      else derived_tool_call tool_call i chunk # expand_chunks tool_call (Suc i) chunks)"

definition expand_tool_call :: "(string \<Rightarrow> string list) \<Rightarrow> tool_call \<Rightarrow> tool_call list" where
  "expand_tool_call split tool_call =
     (let args_string = strip (fn_arguments (tc_function tool_call)) in
      if args_string = [] \<or> \<not> (startswith args_string ''{'' \<or> startswith args_string ''['')
      then [tool_call]
      else let json_chunks = split args_string in
           if length json_chunks \<le> 1 then [tool_call]
           else expand_chunks tool_call 0 json_chunks)"

definition expand_tool_calls :: "(string \<Rightarrow> string list) \<Rightarrow> tool_call list \<Rightarrow> tool_call list" where
  "expand_tool_calls split original_tool_calls =
     concat (map (expand_tool_call split) original_tool_calls)"

subsection \<open>Routing (\_gather\_server\_tool\_calls)\<close>

text \<open>
  The dispatch dictionary is kept in insertion order, as an association list from
  servers to their calls. \<open>mcp_tools\<close> is the list of pairs of a server name and the
  tools that server advertised.
\<close>

type_synonym dispatch = "(mcp_server \<times> tool_call list) list"

definition tool_name_from_schema :: "tool_schema \<Rightarrow> string option" where
  "tool_name_from_schema tool =
     (case schema_function tool of None \<Rightarrow> None | Some f \<Rightarrow> schema_name f)"

definition tool_matches :: "tool_schema \<Rightarrow> tool_call \<Rightarrow> bool" where
  "tool_matches tool tool_call =
     (case tool_name_from_schema tool of
        None \<Rightarrow> False
      | Some n \<Rightarrow> n \<noteq> [] \<and> lower n = lower (fn_name (tc_function tool_call)))"

fun dict_append :: "'k \<Rightarrow> 'v \<Rightarrow> ('k \<times> 'v list) list \<Rightarrow> ('k \<times> 'v list) list" where
  "dict_append k v [] = [(k, [v])]"
| "dict_append k v ((k', vs) # d) =
     (if k' = k then (k', vs @ [v]) # d else (k', vs) # dict_append k v d)"

text \<open>The innermost loop: the first server object of that name takes the call.\<close>

fun add_to_server :: "mcp_server list \<Rightarrow> string \<Rightarrow> tool_call \<Rightarrow> dispatch \<Rightarrow> dispatch" where
  "add_to_server [] name tool_call d = d"
| "add_to_server (server # servers) name tool_call d =
     (if server_name server = name then dict_append server tool_call d
      else add_to_server servers name tool_call d)"

fun gather_tools ::
  "mcp_server list \<Rightarrow> string \<Rightarrow> tool_call \<Rightarrow> tool_schema list \<Rightarrow> dispatch \<Rightarrow> dispatch" where
  "gather_tools servers name tool_call [] d = d"
| "gather_tools servers name tool_call (tool # server_tools) d =
     gather_tools servers name tool_call server_tools
       (if tool_matches tool tool_call then add_to_server servers name tool_call d else d)"

fun gather_call ::
  "mcp_server list \<Rightarrow> (string \<times> tool_schema list) list \<Rightarrow> tool_call \<Rightarrow> dispatch \<Rightarrow> dispatch" where
  "gather_call servers [] tool_call d = d"
| "gather_call servers ((name, server_tools) # mcp_tools) tool_call d =
     gather_call servers mcp_tools tool_call (gather_tools servers name tool_call server_tools d)"

fun gather_calls ::
  "mcp_server list \<Rightarrow> (string \<times> tool_schema list) list \<Rightarrow> tool_call list \<Rightarrow> dispatch \<Rightarrow> dispatch" where
  "gather_calls servers mcp_tools [] d = d"
| "gather_calls servers mcp_tools (tool_call # tool_calls) d =
     gather_calls servers mcp_tools tool_calls (gather_call servers mcp_tools tool_call d)"

definition gather_server_tool_calls ::
  "mcp_server list \<Rightarrow> (string \<times> tool_schema list) list \<Rightarrow> tool_call list \<Rightarrow> dispatch option" where
  "gather_server_tool_calls mcp_servers mcp_tools tool_calls =
     (if mcp_tools = [] then None
      else Some (gather_calls mcp_servers mcp_tools tool_calls []))"

subsection \<open>Execution of one server's calls (\_exec\_server\_tools)\<close>

text \<open>
  The remote side is a state \<open>'s\<close> with the operations the code calls on it:
  \<open>server.connect\<close>, \<open>call_openai_tool\<close> on the session and \<open>server.disconnect\<close>.
  Each may raise. The tool is called with the parsed
  arguments of the chunk (the source passes a copy of the call holding their
  \<open>json.dumps\<close>).
\<close>

text \<open>
  The parts of a tool result. A blob is given by what
  \<open>base64.b64decode(blob).decode("utf-8")\<close> does with it: text, a
  \<open>UnicodeDecodeError\<close> or \<open>TypeError\<close>, or another exception.
\<close>

datatype blob_decoding = Blob_text string | Blob_not_text | Blob_raises py_exception

datatype resource =
    Text_resource string
  | Blob_resource blob_decoding "string option" "string option"
  | Other_resource

datatype content_item = Embedded_resource resource | Text_content string | Other_content

record tool_response =
  tr_role :: string
  tool_call_id :: string
  tr_content :: string

record 's remote =
  connect :: "'s \<Rightarrow> unit outcome \<times> 's"
  call_openai_tool :: "tool_call \<Rightarrow> json \<Rightarrow> 's \<Rightarrow> content_item list outcome \<times> 's"
  disconnect :: "'s \<Rightarrow> 's"

text \<open>The text of one result: the parts in order, or the exception of a blob.\<close>

fun content_parts :: "content_item list \<Rightarrow> string list outcome" where
  "content_parts [] = Returns []"
| "content_parts (item # items) =
     (case (case item of
              Embedded_resource (Text_resource t) \<Rightarrow> Returns [t]
            | Embedded_resource (Blob_resource (Blob_text t) name mime) \<Rightarrow> Returns [t]
            | Embedded_resource (Blob_resource Blob_not_text name mime) \<Rightarrow>
                Returns [''[embedded binary resource: ''
                         @ (case name of None \<Rightarrow> ''unnamed'' | Some n \<Rightarrow> n)
                         @ '' ('' @ (case mime of None \<Rightarrow> ''unknown mime type'' | Some m \<Rightarrow> m)
                         @ '')]'']
            | Embedded_resource (Blob_resource (Blob_raises e) name mime) \<Rightarrow> Raises e
            | Embedded_resource Other_resource \<Rightarrow> Returns []
            | Text_content t \<Rightarrow> Returns [t]
            | Other_content \<Rightarrow> Returns []) of
        Raises e \<Rightarrow> Raises e
      | Returns here \<Rightarrow>
          (case content_parts items of
             Raises e \<Rightarrow> Raises e
           | Returns rest \<Rightarrow> Returns (here @ rest)))"

text \<open>The chunks that parse, with a warning for each one that does not.\<close>

fun parse_chunks :: "string \<Rightarrow> string list \<Rightarrow> json list \<times> io_event list" where
  "parse_chunks name [] = ([], [])"
| "parse_chunks name (chunk # chunks) =
     (let (vs, ws) = parse_chunks name chunks in
      case json_loads chunk of
        Some v \<Rightarrow> (v # vs, ws)
      | None \<Rightarrow> (vs, Tool_warning (''Could not parse JSON chunk for tool '' @ name @ '': '' @ chunk) # ws))"

text \<open>The loop over the parsed arguments: one remote call each, until one raises.\<close>

fun call_each ::
  "'s remote \<Rightarrow> tool_call \<Rightarrow> json list \<Rightarrow> 's \<Rightarrow> string list outcome \<times> 's" where
  "call_each r tool_call [] s = (Returns [], s)"
| "call_each r tool_call (args # rest) s =
     (case call_openai_tool r tool_call args s of
        (Raises e, s') \<Rightarrow> (Raises e, s')
      | (Returns items, s') \<Rightarrow>
          (case content_parts items of
             Raises e \<Rightarrow> (Raises e, s')
           | Returns parts \<Rightarrow>
               (case call_each r tool_call rest s' of
                  (Raises e, s'') \<Rightarrow> (Raises e, s'')
                | (Returns results, s'') \<Rightarrow> (Returns (concat parts # results), s''))))"

text \<open>
  The body of the loop over the routed calls, with its \<open>except Exception\<close>: one
  response, the warnings, and the remote state after the call.
\<close>

definition parse_arguments ::
  "(string \<Rightarrow> string list) \<Rightarrow> tool_call \<Rightarrow> json list \<times> io_event list" where
  "parse_arguments split tool_call =
     (let args_string = strip (fn_arguments (tc_function tool_call));
          (parsed, warnings) =
            (if args_string \<noteq> []
             then parse_chunks (fn_name (tc_function tool_call)) (split args_string)
             else ([], []))
      in (if parsed = [] \<and> args_string = [] then [JObject []] else parsed, warnings))"

definition success_response :: "tool_call \<Rightarrow> string list \<Rightarrow> tool_response" where
  "success_response tool_call all_results_content =
     \<lparr>tr_role = ''tool'', tool_call_id = tc_id tool_call,
      tr_content = join [CHR 0x0A, CHR 0x0A] all_results_content\<rparr>"

definition error_response :: "tool_call \<Rightarrow> py_exception \<Rightarrow> tool_response" where
  "error_response tool_call e =
     \<lparr>tr_role = ''tool'', tool_call_id = tc_id tool_call,
      tr_content = ''Error executing tool call '' @ fn_name (tc_function tool_call) @ '': ''
                   @ [CHR 0x0A] @ exception_str e\<rparr>"

definition exec_one_call ::
  "(string \<Rightarrow> string list) \<Rightarrow> 's remote \<Rightarrow> mcp_server \<Rightarrow> tool_call \<Rightarrow> 's
     \<Rightarrow> tool_response \<times> io_event list \<times> 's" where
  "exec_one_call split r server tool_call s =
     (let (parsed_args_list, warnings) = parse_arguments split tool_call
      in case call_each r tool_call parsed_args_list s of
           (Returns all_results_content, s') \<Rightarrow>
             (success_response tool_call all_results_content, warnings, s')
         | (Raises e, s') \<Rightarrow>
             (error_response tool_call e,
              warnings @ [Tool_warning (''Executing '' @ fn_name (tc_function tool_call)
                                         @ '' on '' @ server_name server
                                         @ '' failed: '' @ [CHR 0x0A] @ ''  Error: ''
                                         @ exception_str e @ [CHR 0x0A])],
              s'))"

fun exec_calls ::
  "(string \<Rightarrow> string list) \<Rightarrow> 's remote \<Rightarrow> mcp_server \<Rightarrow> tool_call list \<Rightarrow> 's
     \<Rightarrow> tool_response list \<times> io_event list \<times> 's" where
  "exec_calls split r server [] s = ([], [], s)"
| "exec_calls split r server (tool_call # tool_calls_list) s =
     (let (resp, ws, s') = exec_one_call split r server tool_call s;
          (resps, ws', s'') = exec_calls split r server tool_calls_list s'
      in (resp # resps, ws @ ws', s''))"

definition connection_error :: "mcp_server \<Rightarrow> py_exception \<Rightarrow> string" where
  "connection_error server e =
     (if class_of e = RemoteProtocolError
      then ''Server '' @ server_name server @ '' disconnected unexpectedly: '' @ exception_str e
      else ''Could not connect to server '' @ server_name server @ [CHR 0x0A] @ exception_str e)"

definition connection_error_responses :: "string \<Rightarrow> tool_call list \<Rightarrow> tool_response list" where
  "connection_error_responses text tool_calls_list =
     map (\<lambda>tool_call. \<lparr>tr_role = ''tool'', tool_call_id = tc_id tool_call,
                        tr_content = text\<rparr>) tool_calls_list"

text \<open>
  A server that is not a \<open>LocalServer\<close>: connect once, run the calls, disconnect in
  every case. Inside the loop every exception is caught per call, so the two outer
  handlers see the exceptions of \<open>server.connect\<close>.
\<close>

definition exec_server_tools ::
  "(string \<Rightarrow> string list) \<Rightarrow> 's remote \<Rightarrow> mcp_server \<Rightarrow> tool_call list \<Rightarrow> 's
     \<Rightarrow> tool_response list \<times> io_event list \<times> 's" where
  "exec_server_tools split r server tool_calls_list s =
     (case connect r s of
        (Returns session, s') \<Rightarrow>
          (let (resps, ws, s'') = exec_calls split r server tool_calls_list s'
           in (resps, ws, disconnect r s''))
      | (Raises e, s') \<Rightarrow>
          (connection_error_responses (connection_error server e) tool_calls_list,
           [Tool_warning (connection_error server e)], disconnect r s'))"


section \<open>file\_manager.py and editor.py: the files in the chat\<close>

text \<open>
  The collaborators of the coder are one state \<open>'w\<close> (the disk, the repository, the
  user) and the operations the code calls on it. \<open>ask_user\<close> is what the prompt of
  \<open>io.confirm_ask\<close> does once it runs. \<open>safe_abs_path\<close> stands for
  \<open>utils.safe_abs_path(Path(root) / path)\<close>. The prompt templates and the URL are
  constants of modules outside these files.
\<close>

datatype commit_result = Git_error string | Commit_returns "(string \<times> string) option"

record 'w env =
  path_in_repo :: "'w \<Rightarrow> string \<Rightarrow> bool"
  git_ignored_file :: "'w \<Rightarrow> string \<Rightarrow> bool"
  is_dirty :: "'w \<Rightarrow> string \<Rightarrow> bool"
  git_add :: "string \<Rightarrow> 'w \<Rightarrow> 'w"
  repo_commit :: "string fset \<Rightarrow> string option \<Rightarrow> bool \<Rightarrow> 'w \<Rightarrow> commit_result \<times> 'w"
  path_exists :: "'w \<Rightarrow> string \<Rightarrow> bool"
  touch_file :: "string \<Rightarrow> 'w \<Rightarrow> bool \<times> 'w"
  ask_user :: "string \<Rightarrow> string \<Rightarrow> 'w \<Rightarrow> bool \<times> 'w"
  read_text :: "'w \<Rightarrow> string \<Rightarrow> string option"
  token_count :: "string option \<Rightarrow> int"
  is_image_file :: "string \<Rightarrow> bool"
  safe_abs_path :: "string \<Rightarrow> string"
  cmd_diff :: "'w \<Rightarrow> 'w"
  urls_edit_errors :: string
  files_content_gpt_edits :: "string \<Rightarrow> string \<Rightarrow> string"
  files_content_gpt_no_edits :: string

record message =
  msg_role :: string
  msg_content :: "string option"

text \<open>
  The attributes of the coder and of its file manager that the two files read and write.
  \<open>has_repo\<close> says that \<open>coder.repo\<close> is not \<open>None\<close>.
\<close>

record 'w coder =
  world :: 'w
  io_log :: "io_event list"
  has_repo :: bool
  abs_fnames :: "string fset"
  abs_root_path_cache :: "string \<rightharpoonup> string"
  warning_given :: bool
  need_commit_before_edits :: "string fset"
  dry_run :: bool
  dirty_commits :: bool
  auto_commits :: bool
  show_diffs :: bool
  cur_messages :: "message list"
  last_aider_commit_hash :: "string option"
  aider_commit_hashes :: "string fset"
  last_aider_commit_message :: "string option"

definition tell :: "io_event list \<Rightarrow> 'w coder \<Rightarrow> 'w coder" where
  "tell events st = st\<lparr>io_log := io_log st @ events\<rparr>"

subsection \<open>FileManager\<close>

definition abs_root_path :: "'w env \<Rightarrow> string \<Rightarrow> 'w coder \<Rightarrow> string \<times> 'w coder" where
  "abs_root_path env path st =
     (case abs_root_path_cache st path of
        Some res \<Rightarrow> (res, st)
      | None \<Rightarrow>
          (let res = safe_abs_path env path
           in (res, st\<lparr>abs_root_path_cache := (abs_root_path_cache st)(path \<mapsto> res)\<rparr>)))"

definition warn_number_of_files :: nat where
  "warn_number_of_files = 4"

definition warn_number_of_tokens :: int where
  "warn_number_of_tokens = 20 * 1024"

definition added_tokens :: "'w env \<Rightarrow> 'w coder \<Rightarrow> int" where
  "added_tokens env st =
     (\<Sum>fname \<in> fset (ffilter (\<lambda>f. \<not> is_image_file env f) (abs_fnames st)).
        token_count env (read_text env (world st) fname))"

definition files_warning :: "'w env \<Rightarrow> io_event list" where
  "files_warning env =
     [Tool_warning ''Warning: it's best to only add files that need changes to the chat.'',
      Tool_warning (urls_edit_errors env)]"

definition check_added_files :: "'w env \<Rightarrow> 'w coder \<Rightarrow> 'w coder" where
  "check_added_files env st =
     (if warning_given st then st
      else if fcard (abs_fnames st) < warn_number_of_files then st
      else if added_tokens env st < warn_number_of_tokens then st
      else (tell (files_warning env) st)\<lparr>warning_given := True\<rparr>)"

definition add_rel_fname :: "'w env \<Rightarrow> string \<Rightarrow> 'w coder \<Rightarrow> 'w coder" where
  "add_rel_fname env rel_fname st =
     (let (full, st1) = abs_root_path env rel_fname st
      in check_added_files env (st1\<lparr>abs_fnames := finsert full (abs_fnames st1)\<rparr>))"

definition drop_rel_fname :: "'w env \<Rightarrow> string \<Rightarrow> 'w coder \<Rightarrow> bool \<times> 'w coder" where
  "drop_rel_fname env fname st =
     (let (abs_fname, st1) = abs_root_path env fname st
      in if abs_fname |\<in>| abs_fnames st1
         then (True, st1\<lparr>abs_fnames := abs_fnames st1 |-| {|abs_fname|}\<rparr>)
         else (False, st1))"

text \<open>
  The life of a file manager: calls of its methods, in any order, between changes of the
  disk that come from elsewhere.
\<close>

datatype 'w fm_call =
    Add_rel_fname string
  | Drop_rel_fname string
  | Check_added_files
  | Elsewhere "'w \<Rightarrow> 'w"

fun fm_step :: "'w env \<Rightarrow> 'w fm_call \<Rightarrow> 'w coder \<Rightarrow> 'w coder" where
  "fm_step env (Add_rel_fname p) st = add_rel_fname env p st"
| "fm_step env (Drop_rel_fname p) st = snd (drop_rel_fname env p st)"
| "fm_step env Check_added_files st = check_added_files env st"
| "fm_step env (Elsewhere f) st = st\<lparr>world := f (world st)\<rparr>"

fun fm_calls :: "'w env \<Rightarrow> 'w fm_call list \<Rightarrow> 'w coder \<Rightarrow> 'w coder" where
  "fm_calls env [] st = st"
| "fm_calls env (c # cs) st = fm_calls env cs (fm_step env c st)"

subsection \<open>EditorManager: authorization\<close>

text \<open>
  \<open>io.confirm_ask\<close> is a coroutine function: the other two calls of it in these files
  are awaited. Calling it makes a coroutine object and shows nothing; \<open>await\<close> runs
  the prompt. A coroutine object has neither \<open>__bool__\<close> nor \<open>__len__\<close>, so its
  truth value is \<open>True\<close>.
\<close>

datatype ('w, 'a) coroutine = Coroutine "'w coder \<Rightarrow> 'a \<times> 'w coder"

definition confirm_ask :: "'w env \<Rightarrow> string \<Rightarrow> string \<Rightarrow> ('w, bool) coroutine" where
  "confirm_ask env question subject =
     Coroutine (\<lambda>st. let (answer, w) = ask_user env question subject (world st)
                     in (answer, (tell [Confirm_ask question subject] st)\<lparr>world := w\<rparr>))"

fun await :: "('w, 'a) coroutine \<Rightarrow> 'w coder \<Rightarrow> 'a \<times> 'w coder" where
  "await (Coroutine body) st = body st"

definition truth_value :: "('w, 'a) coroutine \<Rightarrow> bool" where
  "truth_value c = True"

definition check_for_dirty_commit :: "'w env \<Rightarrow> string \<Rightarrow> 'w coder \<Rightarrow> 'w coder" where
  "check_for_dirty_commit env path st =
     (if \<not> has_repo st then st
      else if \<not> dirty_commits st then st
      else if \<not> is_dirty env (world st) path then st
      else (tell [Tool_output (''Committing '' @ path @ '' before applying edits.'')] st)
             \<lparr>need_commit_before_edits := finsert path (need_commit_before_edits st)\<rparr>)"

definition stage :: "'w env \<Rightarrow> string \<Rightarrow> 'w coder \<Rightarrow> 'w coder" where
  "stage env full_path st =
     (tell [Git_add full_path] st)\<lparr>world := git_add env full_path (world st)\<rparr>"

definition add_to_chat :: "'w env \<Rightarrow> string \<Rightarrow> 'w coder \<Rightarrow> 'w coder" where
  "add_to_chat env full_path st =
     check_added_files env (st\<lparr>abs_fnames := finsert full_path (abs_fnames st)\<rparr>)"

text \<open>
  \<open>allowed_to_edit\<close> returns \<open>True\<close> or \<open>None\<close>; the caller tests its truth, so
  \<open>None\<close> is \<open>False\<close> here. The confirmation of a new file is not awaited in the
  source: the condition tests the coroutine object.
\<close>

definition allowed_to_edit :: "'w env \<Rightarrow> string \<Rightarrow> 'w coder \<Rightarrow> bool \<times> 'w coder" where
  "allowed_to_edit env path st0 =
     (let (full_path, st) = abs_root_path env path st0;
          need_to_add = (if has_repo st then \<not> path_in_repo env (world st) path else False)
      in if full_path |\<in>| abs_fnames st then (True, check_for_dirty_commit env path st)
         else if has_repo st \<and> git_ignored_file env (world st) path
         then (False, tell [Tool_warning (''Skipping edits to '' @ path
                                           @ '' that matches gitignore spec.'')] st)
         else if \<not> path_exists env (world st) full_path
         then (if \<not> truth_value (confirm_ask env ''Create new file?'' path)
               then (False, tell [Tool_output (''Skipping edits to '' @ path)] st)
               else if \<not> dry_run st
               then (let (created, w) = touch_file env full_path (world st);
                         st1 = (tell [Touch_file full_path] st)\<lparr>world := w\<rparr>
                     in if \<not> created
                        then (False, tell [Tool_error (''Unable to create '' @ path
                                                       @ '', skipping edits.'')] st1)
                        else (True, add_to_chat env full_path
                                      (if need_to_add then stage env full_path st1 else st1)))
               else (True, add_to_chat env full_path st))
         else (let (answer, st1) =
                     await (confirm_ask env
                              ''Allow edits to file that has not been added to the chat?'' path) st
               in if \<not> answer then (False, tell [Tool_output (''Skipping edits to '' @ path)] st1)
                  else (True, check_for_dirty_commit env path
                                (add_to_chat env full_path
                                   (if need_to_add then stage env full_path st1 else st1)))))"

subsection \<open>EditorManager: a batch of edits\<close>

text \<open>
  An edit is a tuple whose first component is a path or \<open>None\<close>. The loop of
  \<open>prepare_to_edit\<close> carries the result list, the dictionary \<open>seen\<close> and the coder;
  \<open>calls\<close> is added to it as a record of the calls of \<open>allowed_to_edit\<close> the loop
  made, with what each returned.
\<close>

type_synonym 'e edit = "string option \<times> 'e"




subsection \<open>EditorManager: the commit after the edits\<close>

fun get_context_from_history :: "message list \<Rightarrow> string" where
  "get_context_from_history [] = []"
| "get_context_from_history (msg # history) =
     [CHR 0x0A] @ upper (msg_role msg) @ '': ''
       @ (case msg_content msg of None \<Rightarrow> [] | Some c \<Rightarrow> c) @ [CHR 0x0A]
       @ get_context_from_history history"

definition show_auto_commit_outcome :: "'w env \<Rightarrow> string \<times> string \<Rightarrow> 'w coder \<Rightarrow> 'w coder" where
  "show_auto_commit_outcome env res st =
     (let (commit_hash, commit_message) = res;
          st1 = st\<lparr>last_aider_commit_hash := Some commit_hash,
                   aider_commit_hashes := finsert commit_hash (aider_commit_hashes st),
                   last_aider_commit_message := Some commit_message\<rparr>
      in if show_diffs st1 then (tell [Cmd_diff] st1)\<lparr>world := cmd_diff env (world st1)\<rparr>
         else st1)"

text \<open>The context of the commit message: the one given, unless it is \<open>None\<close> or empty.\<close>

definition commit_context :: "string option \<Rightarrow> 'w coder \<Rightarrow> string" where
  "commit_context context st =
     (case context of
        None \<Rightarrow> get_context_from_history (cur_messages st)
      | Some c \<Rightarrow> if c = [] then get_context_from_history (cur_messages st) else c)"

definition auto_commit ::
  "'w env \<Rightarrow> string fset \<Rightarrow> string option \<Rightarrow> 'w coder \<Rightarrow> string option \<times> 'w coder" where
  "auto_commit env edited context st =
     (if \<not> has_repo st \<or> \<not> auto_commits st \<or> dry_run st then (None, st)
      else (let context' = commit_context context st;
                (r, w) = repo_commit env edited (Some context') True (world st);
                st1 = (tell [Repo_commit edited (Some context') True] st)\<lparr>world := w\<rparr>
            in case r of
                 Git_error err \<Rightarrow> (None, tell [Tool_error (''Unable to commit: '' @ err)] st1)
               | Commit_returns None \<Rightarrow> (Some (files_content_gpt_no_edits env), st1)
               | Commit_returns (Some (commit_hash, commit_message)) \<Rightarrow>
                   (Some (files_content_gpt_edits env commit_hash commit_message),
                    show_auto_commit_outcome env (commit_hash, commit_message) st1)))"


section \<open>runtime.py: summarization and compaction\<close>

text \<open>
  The summarizer is a collaborator: \<open>check_max_tokens\<close> with its optional bound,
  \<open>summarize\<close> and \<open>summarize_all_as_text\<close>, which may raise. The worker thread is
  kept as the place it has reached: started, past its first line (the snapshot of the
  done messages), or finished. \<open>worker_step\<close> is one step of the thread; the main
  thread runs between the steps, and \<open>join\<close> lets the worker run to its end.
\<close>

record summarizer =
  check_max_tokens :: "message list \<Rightarrow> int option \<Rightarrow> bool"
  summarize :: "message list \<Rightarrow> message list outcome"
  summarize_all_as_text :: "message list \<Rightarrow> string \<Rightarrow> int \<Rightarrow> string option outcome"

datatype worker = Started | Snapshot_taken | Finished

record runtime =
  done_messages :: "message list"
  summarizer_thread :: "worker option"
  summarizing_messages :: "message list option"
  summarized_done_messages :: "message list"
  runtime_log :: "io_event list"
  verbose :: bool
  enable_context_compaction :: bool
  context_compaction_max_tokens :: int
  context_compaction_summary_tokens :: int
  compaction_prompt :: string

definition emit :: "io_event list \<Rightarrow> runtime \<Rightarrow> runtime" where
  "emit events rt = rt\<lparr>runtime_log := runtime_log rt @ events\<rparr>"

text \<open>
  The rest of \<open>summarize_worker\<close> after the snapshot. An exception other than
  \<open>ValueError\<close> ends the thread where it is raised.
\<close>

definition summarize_worker_rest :: "summarizer \<Rightarrow> message list \<Rightarrow> runtime \<Rightarrow> runtime" where
  "summarize_worker_rest sm snapshot rt =
     (case summarize sm snapshot of
        Returns summary \<Rightarrow>
          (let rt1 = rt\<lparr>summarized_done_messages := summary\<rparr>
           in if verbose rt1 then emit [Tool_output ''Finished summarizing chat history.''] rt1
              else rt1)
      | Raises e \<Rightarrow>
          (if class_of e = ValueError
           then (let rt1 = (emit [Tool_warning (exception_str e)] rt)
                             \<lparr>summarized_done_messages := snapshot\<rparr>
                 in if verbose rt1
                    then emit [Tool_output ''Finished summarizing chat history.''] rt1
                    else rt1)
           else rt))"

definition worker_step :: "summarizer \<Rightarrow> runtime \<Rightarrow> runtime" where
  "worker_step sm rt =
     (case summarizer_thread rt of
        Some Started \<Rightarrow>
          rt\<lparr>summarizing_messages := Some (done_messages rt),
             summarizer_thread := Some Snapshot_taken\<rparr>
      | Some Snapshot_taken \<Rightarrow>
          (case summarizing_messages rt of
             Some snapshot \<Rightarrow> (summarize_worker_rest sm snapshot rt)\<lparr>summarizer_thread := Some Finished\<rparr>
           | None \<Rightarrow> rt\<lparr>summarizer_thread := Some Finished\<rparr>)
      | _ \<Rightarrow> rt)"

definition thread_join :: "summarizer \<Rightarrow> runtime \<Rightarrow> runtime" where
  "thread_join sm rt = worker_step sm (worker_step sm rt)"

definition summarize_end :: "summarizer \<Rightarrow> runtime \<Rightarrow> runtime" where
  "summarize_end sm rt =
     (case summarizer_thread rt of
        None \<Rightarrow> rt
      | Some w \<Rightarrow>
          (let rt1 = (thread_join sm rt)\<lparr>summarizer_thread := None\<rparr>;
               rt2 = (if summarizing_messages rt1 = Some (done_messages rt1)
                      then rt1\<lparr>done_messages := summarized_done_messages rt1\<rparr>
                      else rt1)
           in rt2\<lparr>summarizing_messages := None, summarized_done_messages := []\<rparr>))"

definition summarize_start :: "summarizer \<Rightarrow> runtime \<Rightarrow> runtime" where
  "summarize_start sm rt =
     (if \<not> check_max_tokens sm (done_messages rt) None then rt
      else (let rt1 = summarize_end sm rt;
                rt2 = (if verbose rt1
                       then emit [Tool_output ''Starting to summarize chat history.''] rt1
                       else rt1)
            in rt2\<lparr>summarizer_thread := Some Started\<rparr>))"

definition summary_messages :: "string \<Rightarrow> message list" where
  "summary_messages summary_text =
     [\<lparr>msg_role = ''user'', msg_content = Some summary_text\<rparr>,
      \<lparr>msg_role = ''assistant'',
       msg_content = Some ''Ok, I will use this summary as the context for our conversation going forward.''\<rparr>]"

text \<open>
  The \<open>try\<close> block of \<open>compact_context_if_needed\<close> as a value: the summary text, or
  the exception that reaches \<open>except Exception\<close>, the \<open>ValueError\<close> of an empty
  summary included.
\<close>

definition summary_or_exception :: "summarizer \<Rightarrow> runtime \<Rightarrow> string outcome" where
  "summary_or_exception sm rt =
     (case summarize_all_as_text sm (done_messages rt) (compaction_prompt rt)
             (context_compaction_summary_tokens rt) of
        Raises e \<Rightarrow> Raises e
      | Returns None \<Rightarrow> Raises (Exception ValueError ''Summarization returned an empty result.'')
      | Returns (Some summary_text) \<Rightarrow>
          if summary_text = []
          then Raises (Exception ValueError ''Summarization returned an empty result.'')
          else Returns summary_text)"

definition compact_context_if_needed :: "summarizer \<Rightarrow> runtime \<Rightarrow> runtime" where
  "compact_context_if_needed sm rt =
     (if \<not> enable_context_compaction rt then summarize_start sm rt
      else if \<not> check_max_tokens sm (done_messages rt) (Some (context_compaction_max_tokens rt))
      then rt
      else (let rt1 = emit [Tool_output ''Compacting chat history to make room for new messages...''] rt
            in case summary_or_exception sm rt1 of
                 Returns summary_text \<Rightarrow>
                   emit [Tool_output ''...chat history compacted.'']
                     (rt1\<lparr>done_messages := summary_messages summary_text\<rparr>)
               | Raises e \<Rightarrow>
                   summarize_start sm
                     (emit [Tool_warning (''Context compaction failed: '' @ exception_str e),
                              Tool_warning ''Proceeding with full history for now.''] rt1)))"


section \<open>Auxiliary notions\<close>

text \<open>
  Notions used to state the properties below; none of them is part of the code.
  \<open>first_success\<close> is the first result of a list of attempts. \<open>routes\<close> lists, for
  one call, the server objects that routing reaches: for each advertisement of a
  matching tool, the first server object with the advertiser's name. \<open>calls_of\<close>
  reads a dispatch dictionary.
\<close>

fun first_success :: "'a option list \<Rightarrow> 'a option" where
  "first_success [] = None"
| "first_success (None # attempts) = first_success attempts"
| "first_success (Some v # attempts) = Some v"

definition first_server :: "mcp_server list \<Rightarrow> string \<Rightarrow> mcp_server option" where
  "first_server servers name = List.find (\<lambda>server. server_name server = name) servers"

definition routes ::
  "mcp_server list \<Rightarrow> (string \<times> tool_schema list) list \<Rightarrow> tool_call \<Rightarrow> mcp_server list" where
  "routes servers mcp_tools tool_call =
     concat (map (\<lambda>(name, server_tools).
                    case first_server servers name of
                      None \<Rightarrow> []
                    | Some server \<Rightarrow>
                        replicate
                          (length (filter (\<lambda>tool. tool_matches tool tool_call) server_tools))
                          server)
                 mcp_tools)"

definition calls_of :: "dispatch \<Rightarrow> mcp_server \<Rightarrow> tool_call list" where
  "calls_of d server = (case map_of d server of None \<Rightarrow> [] | Some cs \<Rightarrow> cs)"





section \<open>Sample inputs\<close>

text \<open>Concrete collaborators and states, on which the theorems below are run.\<close>

definition m1 :: message where
  "m1 = \<lparr>msg_role = ''user'', msg_content = Some ''hello''\<rparr>"

definition m2 :: message where
  "m2 = \<lparr>msg_role = ''assistant'', msg_content = Some ''hi''\<rparr>"

definition m3 :: message where
  "m3 = \<lparr>msg_role = ''user'', msg_content = Some ''more''\<rparr>"

text \<open>
  A summarizer whose own bound is not exceeded while the bound of compaction is, and
  whose text summary comes back empty.
\<close>

definition sm0 :: summarizer where
  "sm0 = \<lparr>check_max_tokens = (\<lambda>msgs bound. case bound of None \<Rightarrow> False | Some b \<Rightarrow> True),
          summarize = (\<lambda>msgs. Returns [m3]),
          summarize_all_as_text = (\<lambda>msgs prompt n. Returns (Some []))\<rparr>"

definition rt0 :: runtime where
  "rt0 = \<lparr>done_messages = [m1, m2], summarizer_thread = None,
          summarizing_messages = None, summarized_done_messages = [],
          runtime_log = [], verbose = False, enable_context_compaction = True,
          context_compaction_max_tokens = 100, context_compaction_summary_tokens = 10,
          compaction_prompt = ''compact''\<rparr>"

text \<open>
  A world that is the set of the files on disk, with a user who declines every prompt
  and a repository that commits whatever it is given.
\<close>

definition env0 :: "string fset env" where
  "env0 = \<lparr>path_in_repo = (\<lambda>w p. False),
           git_ignored_file = (\<lambda>w p. False),
           is_dirty = (\<lambda>w p. True),
           git_add = (\<lambda>p w. w),
           repo_commit = (\<lambda>fnames context aider_edits w.
                            (if fnames = {||} then Commit_returns None
                             else Commit_returns (Some (''abc1234'', ''edit files'')), w)),
           path_exists = (\<lambda>w p. p |\<in>| w),
           touch_file = (\<lambda>p w. (True, finsert p w)),
           ask_user = (\<lambda>question subject w. (False, w)),
           read_text = (\<lambda>w p. if p |\<in>| w then Some p else None),
           token_count = (\<lambda>c. case c of None \<Rightarrow> 0 | Some t \<Rightarrow> 6000),
           is_image_file = (\<lambda>p. False),
           safe_abs_path = (\<lambda>p. ''/repo/'' @ p),
           cmd_diff = (\<lambda>w. w),
           urls_edit_errors = ''https://aider.chat/docs/troubleshooting/edit-errors.html'',
           files_content_gpt_edits =
             (\<lambda>h m. ''I committed the changes with git hash '' @ h @ '' & commit msg: '' @ m),
           files_content_gpt_no_edits = ''No properly formatted edits.''\<rparr>"

definition coder0 :: "string fset coder" where
  "coder0 = \<lparr>world = {||}, io_log = [], has_repo = True, abs_fnames = {||},
             abs_root_path_cache = Map.empty, warning_given = False,
             need_commit_before_edits = {||}, dry_run = False, dirty_commits = True,
             auto_commits = True, show_diffs = False, cur_messages = [m1],
             last_aider_commit_hash = None, aider_commit_hashes = {||},
             last_aider_commit_message = None\<rparr>"



text \<open>Two servers that both advertise \<open>search\<close>, and calls of \<open>Search\<close> and \<open>fetch\<close>.\<close>

definition server_a :: mcp_server where
  "server_a = \<lparr>server_name = ''alpha'', server_ident = 0\<rparr>"

definition server_b :: mcp_server where
  "server_b = \<lparr>server_name = ''beta'', server_ident = 1\<rparr>"

definition search_tool :: tool_schema where
  "search_tool =
     \<lparr>schema_function = Some \<lparr>schema_name = Some ''search'', schema_description = None\<rparr>\<rparr>"

definition call_search :: tool_call where
  "call_search = \<lparr>tc_id = ''call_1'', tc_type = ''function'',
                  tc_function = \<lparr>fn_name = ''Search'', fn_arguments = ''{}''\<rparr>\<rparr>"

definition call_fetch :: tool_call where
  "call_fetch = \<lparr>tc_id = ''call_2'', tc_type = ''function'',
                 tc_function = \<lparr>fn_name = ''fetch'', fn_arguments = ''{}''\<rparr>\<rparr>"

text \<open>
  A call whose arguments are two objects in a row, and a splitter that knows that text.
\<close>

definition call_twice :: tool_call where
  \<open>call_twice = \<lparr>tc_id = ''call_3'', tc_type = ''function'',
                 tc_function = \<lparr>fn_name = ''search'',
                                fn_arguments = ''{"a":1}{"b":2}''\<rparr>\<rparr>\<close>

definition split0 :: "string \<Rightarrow> string list" where
  \<open>split0 s = (if s = ''{"a":1}{"b":2}'' then [''{"a":1}'', ''{"b":2}''] else [s])\<close>

text \<open>
  A remote side that counts its calls: it connects, answers \<open>ok\<close>, and drops the
  connection during every call of \<open>Search\<close>.
\<close>

definition remote0 :: "nat remote" where
  "remote0 = \<lparr>connect = (\<lambda>s. (Returns (), s)),
              call_openai_tool =
                (\<lambda>tool_call args s.
                   (if fn_name (tc_function tool_call) = ''Search''
                    then Raises (Exception RemoteProtocolError ''peer closed'')
                    else Returns [Text_content ''ok''], Suc s)),
              disconnect = (\<lambda>s. s)\<rparr>"

definition remote_down :: "nat remote" where
  "remote_down = remote0\<lparr>connect := (\<lambda>s. (Raises (Exception RemoteProtocolError ''reset''), s))\<rparr>"


section \<open>Properties of the argument parser\<close>

lemmas json_eval =
  json_loads_def lex_step_def lex_default_def lex_end_def json_ws_def is_digit_def
  is_letter_def number_next_def number_accepting_def word_token_def
text \<open>
  C2, as stated, fails: for the buffer \<open>[{"a":1\<close> the append of \<open>]}\<close> does not
  parse, nor does any other tier, and \<open>parse_partial_args\<close> returns nothing.
\<close>

theorem parse_partial_args_counterexample:
  \<open>json_loads (''[{"a":1'' @ '']}'') = None \<and> parse_partial_args (Some ''[{"a":1'') = None\<close>
  by (simp add: parse_partial_args_def parse_partial_args_with_def json_eval)

text \<open>
  C2, amended. \<open>parse_partial_args\<close> returns nothing for a missing or empty buffer.
  Otherwise it returns the first parse that succeeds among the buffer itself, the buffer
  with \<open>]}\<close> appended, with \<open>}]}\<close> and with \<open>"}]}\<close>, in that order, and nothing if
  all four fail. Concretely, for the buffer \<open>{"k":[{"a":1}\<close> the append of \<open>]}\<close>
  succeeds, for \<open>{"k":[{"a":1\<close> that of \<open>}]}\<close>, and for \<open>{"k":[{"a":"x\<close> that of
  \<open>"}]}\<close>; for the buffers \<open>[{"a":1\<close>, \<open>[{"a":1}\<close> and \<open>[{"a":"x\<close> every tier
  fails and nothing is returned.
\<close>

lemma parse_partial_args_with_first_success:
  \<open>data \<noteq> [] \<Longrightarrow>
   parse_partial_args_with loads (Some data)
     = first_success [loads data, loads (data @ '']}''), loads (data @ ''}]}''),
                      loads (data @ [CHR 0x22] @ ''}]}'')]\<close>
  by (simp add: parse_partial_args_with_def split: option.splits)

theorem parse_partial_args_tiers:
  \<open>parse_partial_args_with loads None = None
   \<and> parse_partial_args_with loads (Some []) = None
   \<and> (data \<noteq> [] \<longrightarrow>
        parse_partial_args_with loads (Some data)
          = first_success [loads data, loads (data @ '']}''), loads (data @ ''}]}''),
                           loads (data @ [CHR 0x22] @ ''}]}'')])
   \<and> json_loads ''{"k":[{"a":1}'' = None
   \<and> parse_partial_args (Some ''{"k":[{"a":1}'') = json_loads (''{"k":[{"a":1}'' @ '']}'')
   \<and> json_loads (''{"k":[{"a":1}'' @ '']}'')
       = Some (JObject [([107], JArray [JObject [([97], JNumber ''1'')]])])
   \<and> json_loads (''{"k":[{"a":1'' @ '']}'') = None
   \<and> parse_partial_args (Some ''{"k":[{"a":1'') = json_loads (''{"k":[{"a":1'' @ ''}]}'')
   \<and> json_loads (''{"k":[{"a":1'' @ ''}]}'')
       = Some (JObject [([107], JArray [JObject [([97], JNumber ''1'')]])])
   \<and> json_loads (''{"k":[{"a":"x'' @ ''}]}'') = None
   \<and> parse_partial_args (Some ''{"k":[{"a":"x'')
       = json_loads (''{"k":[{"a":"x'' @ [CHR 0x22] @ ''}]}'')
   \<and> json_loads (''{"k":[{"a":"x'' @ [CHR 0x22] @ ''}]}'')
       = Some (JObject [([107], JArray [JObject [([97], JString [120])]])])
   \<and> parse_partial_args (Some ''[{"a":1'') = None
   \<and> parse_partial_args (Some ''[{"a":1}'') = None
   \<and> parse_partial_args (Some ''[{"a":"x'') = None\<close>
proof -
  have g1: "parse_partial_args_with loads None = None"
    and g2: "parse_partial_args_with loads (Some []) = None"
    by (simp_all add: parse_partial_args_with_def)
  have g3: \<open>parse_partial_args_with loads (Some data)
          = first_success [loads data, loads (data @ '']}''), loads (data @ ''}]}''),
                           loads (data @ [CHR 0x22] @ ''}]}'')]\<close> if "data \<noteq> []"
    using that by (rule parse_partial_args_with_first_success)
  have a1: \<open>json_loads ''{"k":[{"a":1}'' = None\<close> by (simp add: json_eval)
  have a2: \<open>json_loads (''{"k":[{"a":1}'' @ '']}'')
       = Some (JObject [([107], JArray [JObject [([97], JNumber ''1'')]])])\<close>
    by (simp add: json_eval)
  have a3: \<open>parse_partial_args (Some ''{"k":[{"a":1}'') = json_loads (''{"k":[{"a":1}'' @ '']}'')\<close>
    unfolding parse_partial_args_def by (simp add: parse_partial_args_with_first_success a1 a2 del: append.simps)
  have b1: \<open>json_loads ''{"k":[{"a":1'' = None\<close> by (simp add: json_eval)
  have b2: \<open>json_loads (''{"k":[{"a":1'' @ '']}'') = None\<close> by (simp add: json_eval)
  have b3: \<open>json_loads (''{"k":[{"a":1'' @ ''}]}'')
       = Some (JObject [([107], JArray [JObject [([97], JNumber ''1'')]])])\<close>
    by (simp add: json_eval)
  have b4: \<open>parse_partial_args (Some ''{"k":[{"a":1'') = json_loads (''{"k":[{"a":1'' @ ''}]}'')\<close>
    unfolding parse_partial_args_def by (simp add: parse_partial_args_with_first_success b1 b2 b3 del: append.simps)
  have c1: \<open>json_loads ''{"k":[{"a":"x'' = None\<close> by (simp add: json_eval)
  have c2: \<open>json_loads (''{"k":[{"a":"x'' @ '']}'') = None\<close> by (simp add: json_eval)
  have c3: \<open>json_loads (''{"k":[{"a":"x'' @ ''}]}'') = None\<close> by (simp add: json_eval)
  have c4: \<open>json_loads (''{"k":[{"a":"x'' @ [CHR 0x22] @ ''}]}'')
       = Some (JObject [([107], JArray [JObject [([97], JString [120])]])])\<close>
    by (simp add: json_eval)
  have c5: \<open>parse_partial_args (Some ''{"k":[{"a":"x'')
       = json_loads (''{"k":[{"a":"x'' @ [CHR 0x22] @ ''}]}'')\<close>
    unfolding parse_partial_args_def by (simp add: parse_partial_args_with_first_success c1 c2 c3 c4 del: append.simps)
  have d1: \<open>parse_partial_args (Some ''[{"a":1'') = None\<close>
    by (simp add: parse_partial_args_def parse_partial_args_with_def json_eval)
  have d2: \<open>parse_partial_args (Some ''[{"a":1}'') = None\<close>
    by (simp add: parse_partial_args_def parse_partial_args_with_def json_eval)
  have d3: \<open>parse_partial_args (Some ''[{"a":"x'') = None\<close>
    by (simp add: parse_partial_args_def parse_partial_args_with_def json_eval)
  show ?thesis
    using g1 g2 g3 a1 a2 a3 b2 b3 b4 c3 c4 c5 d1 d2 d3 by (intro conjI impI)
qed

theorem parse_partial_args_tiers_witness:
  \<open>''{"k":[1'' \<noteq> []
   \<and> parse_partial_args_with json_loads (Some ''{"k":[1'') = Some (JObject [([107], JArray [JNumber ''1''])])\<close>
proof -
  have ne: \<open>''{"k":[1'' \<noteq> []\<close> by simp
  have t: \<open>''{"k":[1'' \<noteq> [] \<longrightarrow>
        parse_partial_args_with json_loads (Some ''{"k":[1'')
          = first_success [json_loads ''{"k":[1'', json_loads (''{"k":[1'' @ '']}''),
                           json_loads (''{"k":[1'' @ ''}]}''),
                           json_loads (''{"k":[1'' @ [CHR 0x22] @ ''}]}'')]\<close>
    using parse_partial_args_tiers [of json_loads \<open>''{"k":[1''\<close>] by (elim conjE)
  have e1: \<open>json_loads ''{"k":[1'' = None\<close> by (simp add: json_eval)
  have e2: \<open>json_loads (''{"k":[1'' @ '']}'') = Some (JObject [([107], JArray [JNumber ''1''])])\<close>
    by (simp add: json_eval)
  show ?thesis using t [THEN mp, OF ne] ne by (simp add: e1 e2 del: append.simps)
qed

section \<open>Properties of tool calls\<close>

lemma str_nat_0: "str_nat 0 = ''0''" by (simp add: str_nat.simps)
lemma str_nat_1: "str_nat (Suc 0) = ''1''" by (simp add: str_nat.simps)


lemma strip_empty: "strip s = [] \<longleftrightarrow> (\<forall>c \<in> set s. isspace c)"
proof
  assume e: "strip s = []"
  show "\<forall>c \<in> set s. isspace c"
  proof (rule ccontr)
    assume "\<not> (\<forall>c \<in> set s. isspace c)"
    then have ne: "dropWhile isspace s \<noteq> []" by (simp add: dropWhile_eq_Nil_conv)
    then have "\<not> isspace (hd (dropWhile isspace s))" by (rule hd_dropWhile)
    moreover have "hd (dropWhile isspace s) \<in> set (rev (dropWhile isspace s))"
      using ne by simp
    ultimately have "dropWhile isspace (rev (dropWhile isspace s)) \<noteq> []"
      by (auto simp: dropWhile_eq_Nil_conv)
    then show False using e by (simp add: strip_def rstrip_def lstrip_def)
  qed
next
  assume a: "\<forall>c \<in> set s. isspace c"
  then show "strip s = []"
    by (auto simp: strip_def rstrip_def lstrip_def dest: set_dropWhileD)
qed

lemma letter_not_space: "is_letter c \<Longrightarrow> \<not> isspace c"
  by (auto simp: is_letter_def isspace_def)

lemma digit_not_space: "is_digit c \<Longrightarrow> \<not> isspace c"
  by (auto simp: is_digit_def isspace_def)

lemma lex_default_space:
  assumes "isspace c"
  shows "lex_default c = None \<or> lex_default c = Some (M_default, [])"
proof -
  have p: "c \<noteq> CHR ''{''" "c \<noteq> CHR ''}''" "c \<noteq> CHR ''[''" "c \<noteq> CHR '']''" "c \<noteq> CHR '':''"
    "c \<noteq> CHR '',''" "c \<noteq> CHR 0x22" "c \<noteq> CHR ''-''" "c \<noteq> CHR ''0''"
    using assms by (auto simp: isspace_def)
  have nl: "\<not> is_letter c" using assms letter_not_space by blast
  have nd: "\<not> is_digit c" using assms digit_not_space by blast
  show ?thesis by (simp add: lex_default_def p nl nd)
qed

lemma lex_blank:
  "\<forall>c \<in> set s. isspace c \<Longrightarrow> lex M_default s = None \<or> lex M_default s = Some []"
proof (induction s)
  case Nil
  show ?case by (simp add: lex_end_def)
next
  case (Cons c s)
  have sp: "isspace c" using Cons.prems by simp
  have rest: "lex M_default s = None \<or> lex M_default s = Some []"
    using Cons.IH Cons.prems by simp
  show ?case
    using lex_default_space [OF sp] rest by (auto simp: lex_step_def)
qed

lemma json_loads_not_blank: "json_loads s = Some v \<Longrightarrow> strip s \<noteq> []"
proof
  assume v: "json_loads s = Some v" and "strip s = []"
  then have "\<forall>c \<in> set s. isspace c" by (simp add: strip_empty)
  then have "lex M_default s = None \<or> lex M_default s = Some []" by (rule lex_blank)
  then have "json_loads s = None" by (auto simp: json_loads_def)
  then show False using v by simp
qed

lemma expand_tool_call_cases:
  assumes "args_string = strip (fn_arguments (tc_function tool_call))"
  shows "((startswith args_string ''{'' \<or> startswith args_string ''['')
            \<and> split args_string = [c0, c1] \<and> json_loads c0 = Some (JObject o0)
            \<and> json_loads c1 = Some (JObject o1) \<longrightarrow>
            expand_tool_call split tool_call
              = [tool_call\<lparr>tc_id := tc_id tool_call @ ''-0'',
                           tc_function := (tc_function tool_call)\<lparr>fn_arguments := c0\<rparr>\<rparr>,
                 tool_call\<lparr>tc_id := tc_id tool_call @ ''-1'',
                           tc_function := (tc_function tool_call)\<lparr>fn_arguments := c1\<rparr>\<rparr>])
       \<and> (\<not> (startswith args_string ''{'' \<or> startswith args_string ''['')
            \<or> length (split args_string) \<le> 1 \<longrightarrow>
            expand_tool_call split tool_call = [tool_call])"
proof -
  have two: "expand_tool_call split tool_call
              = [tool_call\<lparr>tc_id := tc_id tool_call @ ''-0'',
                           tc_function := (tc_function tool_call)\<lparr>fn_arguments := c0\<rparr>\<rparr>,
                 tool_call\<lparr>tc_id := tc_id tool_call @ ''-1'',
                           tc_function := (tc_function tool_call)\<lparr>fn_arguments := c1\<rparr>\<rparr>]"
    if "startswith args_string ''{'' \<or> startswith args_string ''[''"
       "split args_string = [c0, c1]" "json_loads c0 = Some (JObject o0)"
       "json_loads c1 = Some (JObject o1)"
  proof -
    have ne: "args_string \<noteq> []" using that(1) by (auto simp: startswith_def)
    have "strip c0 \<noteq> []" "strip c1 \<noteq> []"
      using that(3,4) by (simp_all add: json_loads_not_blank)
    then show ?thesis
      using that(1,2) assms ne
      by (simp add: expand_tool_call_def Let_def derived_tool_call_def str_nat_0 str_nat_1)
  qed
  have one: "expand_tool_call split tool_call = [tool_call]"
    if "\<not> (startswith args_string ''{'' \<or> startswith args_string ''['')
        \<or> length (split args_string) \<le> 1"
    using that assms by (auto simp: expand_tool_call_def Let_def)
  show ?thesis using two one by blast
qed

lemma strip_sample:
  \<open>strip ''{"a":1}{"b":2}'' = ''{"a":1}{"b":2}''\<close>
  \<open>strip ''{"a":1}'' = ''{"a":1}''\<close>
  \<open>strip ''{"b":2}'' = ''{"b":2}''\<close>
  by (simp_all add: strip_def rstrip_def lstrip_def isspace_def)


lemma expand_tool_calls_around:
  "expand_tool_calls split (pre @ tool_call # post)
     = expand_tool_calls split pre @ expand_tool_call split tool_call
       @ expand_tool_calls split post"
  by (simp add: expand_tool_calls_def)

text \<open>
  C4. Extraction runs over the calls of the response in order. A call whose stripped
  argument string starts with a brace or bracket and splits into exactly two chunks,
  each a valid JSON object, is replaced by exactly two calls, each a copy of the
  original with its own chunk as arguments, with the identifiers \<open>id-0\<close> and
  \<open>id-1\<close>. A call whose argument string splits into at most one chunk, or does not
  start with a brace or bracket, stays in its place, unchanged. The calls before and
  after are expanded on their own.
\<close>

theorem expansion_of_concatenated_arguments:
  assumes "args_string = strip (fn_arguments (tc_function tool_call))"
  shows "((startswith args_string ''{'' \<or> startswith args_string ''['')
            \<and> split args_string = [c0, c1] \<and> json_loads c0 = Some (JObject o0)
            \<and> json_loads c1 = Some (JObject o1) \<longrightarrow>
            expand_tool_calls split (pre @ tool_call # post)
              = expand_tool_calls split pre
                @ [tool_call\<lparr>tc_id := tc_id tool_call @ ''-0'',
                             tc_function := (tc_function tool_call)\<lparr>fn_arguments := c0\<rparr>\<rparr>,
                   tool_call\<lparr>tc_id := tc_id tool_call @ ''-1'',
                             tc_function := (tc_function tool_call)\<lparr>fn_arguments := c1\<rparr>\<rparr>]
                @ expand_tool_calls split post)
       \<and> (\<not> (startswith args_string ''{'' \<or> startswith args_string ''['')
            \<or> length (split args_string) \<le> 1 \<longrightarrow>
            expand_tool_calls split (pre @ tool_call # post)
              = expand_tool_calls split pre @ tool_call # expand_tool_calls split post)
       \<and> expand_tool_calls split [] = []"
proof -
  note cases = expand_tool_call_cases [OF assms, of split c0 c1 o0 o1]
  have two: "expand_tool_calls split (pre @ tool_call # post)
              = expand_tool_calls split pre
                @ [tool_call\<lparr>tc_id := tc_id tool_call @ ''-0'',
                             tc_function := (tc_function tool_call)\<lparr>fn_arguments := c0\<rparr>\<rparr>,
                   tool_call\<lparr>tc_id := tc_id tool_call @ ''-1'',
                             tc_function := (tc_function tool_call)\<lparr>fn_arguments := c1\<rparr>\<rparr>]
                @ expand_tool_calls split post"
    if h: "(startswith args_string ''{'' \<or> startswith args_string ''['')
            \<and> split args_string = [c0, c1] \<and> json_loads c0 = Some (JObject o0)
            \<and> json_loads c1 = Some (JObject o1)"
  proof -
    have "expand_tool_call split tool_call
            = [tool_call\<lparr>tc_id := tc_id tool_call @ ''-0'',
                         tc_function := (tc_function tool_call)\<lparr>fn_arguments := c0\<rparr>\<rparr>,
               tool_call\<lparr>tc_id := tc_id tool_call @ ''-1'',
                         tc_function := (tc_function tool_call)\<lparr>fn_arguments := c1\<rparr>\<rparr>]"
      using cases [THEN conjunct1, THEN mp, OF h] .
    then show ?thesis by (simp only: expand_tool_calls_around)
  qed
  have one: "expand_tool_calls split (pre @ tool_call # post)
              = expand_tool_calls split pre @ tool_call # expand_tool_calls split post"
    if h: "\<not> (startswith args_string ''{'' \<or> startswith args_string ''['')
            \<or> length (split args_string) \<le> 1"
  proof -
    have "expand_tool_call split tool_call = [tool_call]"
      using cases [THEN conjunct2, THEN mp, OF h] .
    then show ?thesis by (simp add: expand_tool_calls_around)
  qed
  have nil: "expand_tool_calls split [] = []" by (simp add: expand_tool_calls_def)
  show ?thesis using two one nil by blast
qed

text \<open>
  A response with three calls: \<open>Search\<close> and \<open>fetch\<close> with the arguments \<open>{}\<close> stay,
  and the call between them, with two objects in a row, becomes two.
\<close>

theorem expansion_of_concatenated_arguments_witness:
  \<open>json_loads ''{"a":1}'' = Some (JObject [([97], JNumber ''1'')])
   \<and> json_loads ''{"b":2}'' = Some (JObject [([98], JNumber ''2'')])
   \<and> expand_tool_calls split0 [call_search, call_twice, call_fetch]
       = [call_search,
          call_twice\<lparr>tc_id := ''call_3-0'',
                      tc_function := (tc_function call_twice)\<lparr>fn_arguments := ''{"a":1}''\<rparr>\<rparr>,
          call_twice\<lparr>tc_id := ''call_3-1'',
                      tc_function := (tc_function call_twice)\<lparr>fn_arguments := ''{"b":2}''\<rparr>\<rparr>,
          call_fetch]\<close>
proof -
  have j: \<open>json_loads ''{"a":1}'' = Some (JObject [([97], JNumber ''1'')])\<close>
          \<open>json_loads ''{"b":2}'' = Some (JObject [([98], JNumber ''2'')])\<close>
    by (simp_all add: json_eval)
  have a1: \<open>''{"a":1}{"b":2}'' = strip (fn_arguments (tc_function call_twice))\<close>
    by (simp add: call_twice_def strip_sample)
  have a2: \<open>startswith ''{"a":1}{"b":2}'' ''{'' \<or> startswith ''{"a":1}{"b":2}'' ''[''\<close>
    by (simp add: startswith_def)
  have s2: \<open>split0 ''{"a":1}{"b":2}'' = [''{"a":1}'', ''{"b":2}'']\<close>
    by (simp add: split0_def)
  have id3: "tc_id call_twice = ''call_3''" by (simp add: call_twice_def)
  have h2: \<open>(startswith ''{"a":1}{"b":2}'' ''{'' \<or> startswith ''{"a":1}{"b":2}'' ''['')
            \<and> split0 ''{"a":1}{"b":2}'' = [''{"a":1}'', ''{"b":2}'']
            \<and> json_loads ''{"a":1}'' = Some (JObject [([97], JNumber ''1'')])
            \<and> json_loads ''{"b":2}'' = Some (JObject [([98], JNumber ''2'')])\<close>
    using a2 s2 j by (intro conjI)
  have two: \<open>expand_tool_calls split0 ([call_search] @ call_twice # [call_fetch])
       = expand_tool_calls split0 [call_search]
         @ [call_twice\<lparr>tc_id := tc_id call_twice @ ''-0'',
                        tc_function := (tc_function call_twice)\<lparr>fn_arguments := ''{"a":1}''\<rparr>\<rparr>,
            call_twice\<lparr>tc_id := tc_id call_twice @ ''-1'',
                        tc_function := (tc_function call_twice)\<lparr>fn_arguments := ''{"b":2}''\<rparr>\<rparr>]
         @ expand_tool_calls split0 [call_fetch]\<close>
    using expansion_of_concatenated_arguments
            [OF a1, of split0 _ _ _ _ "[call_search]" "[call_fetch]",
             THEN conjunct1, THEN mp, OF h2] .
  have b1: "''{}'' = strip (fn_arguments (tc_function call_search))"
    by (simp add: call_search_def strip_def rstrip_def lstrip_def isspace_def)
  have b3: "''{}'' = strip (fn_arguments (tc_function call_fetch))"
    by (simp add: call_fetch_def strip_def rstrip_def lstrip_def isspace_def)
  have s1: "\<not> (startswith ''{}'' ''{'' \<or> startswith ''{}'' ''['') \<or> length (split0 ''{}'') \<le> 1"
    by (simp add: split0_def)
  have nil: "expand_tool_calls split0 [] = []"
    using expansion_of_concatenated_arguments [OF b1, of split0, THEN conjunct2, THEN conjunct2] .
  have one_s: "expand_tool_calls split0 ([] @ call_search # [])
                 = expand_tool_calls split0 [] @ call_search # expand_tool_calls split0 []"
    using expansion_of_concatenated_arguments
            [OF b1, of split0 _ _ _ _ "[]" "[]", THEN conjunct2, THEN conjunct1, THEN mp, OF s1] .
  have one_f: "expand_tool_calls split0 ([] @ call_fetch # [])
                 = expand_tool_calls split0 [] @ call_fetch # expand_tool_calls split0 []"
    using expansion_of_concatenated_arguments
            [OF b3, of split0 _ _ _ _ "[]" "[]", THEN conjunct2, THEN conjunct1, THEN mp, OF s1] .
  have ks: "expand_tool_calls split0 [call_search] = [call_search]"
    using one_s by (simp add: nil)
  have kf: "expand_tool_calls split0 [call_fetch] = [call_fetch]"
    using one_f by (simp add: nil)
  have all: \<open>expand_tool_calls split0 [call_search, call_twice, call_fetch]
       = [call_search,
          call_twice\<lparr>tc_id := ''call_3-0'',
                      tc_function := (tc_function call_twice)\<lparr>fn_arguments := ''{"a":1}''\<rparr>\<rparr>,
          call_twice\<lparr>tc_id := ''call_3-1'',
                      tc_function := (tc_function call_twice)\<lparr>fn_arguments := ''{"b":2}''\<rparr>\<rparr>,
          call_fetch]\<close>
    using two by (simp add: ks kf id3)
  show ?thesis using j all by (intro conjI)
qed

lemma calls_of_Nil: "calls_of [] s = []"
  by (simp add: calls_of_def)

lemma map_of_dict_append:
  "map_of (dict_append k v d) k' =
     (if k' = k then Some ((case map_of d k of None \<Rightarrow> [] | Some vs \<Rightarrow> vs) @ [v]) else map_of d k')"
  by (induction d) auto

lemma keys_dict_append: "set (map fst (dict_append k v d)) = insert k (set (map fst d))"
proof (induction d)
  case Nil
  show ?case by simp
next
  case (Cons a d)
  obtain k' vs where a: "a = (k', vs)" by (cases a)
  show ?case using Cons.IH by (cases "k' = k") (simp_all add: a insert_commute)
qed

lemma distinct_dict_append: "distinct (map fst d) \<Longrightarrow> distinct (map fst (dict_append k v d))"
proof (induction d)
  case Nil
  then show ?case by simp
next
  case (Cons a d)
  then show ?case using keys_dict_append [of k v d] by (cases a) auto
qed

lemma calls_of_dict_append:
  "calls_of (dict_append k v d) s = calls_of d s @ (if s = k then [v] else [])"
  by (simp add: calls_of_def map_of_dict_append)

lemma calls_of_add_to_server:
  "calls_of (add_to_server servers name c d) s
     = calls_of d s @ (if first_server servers name = Some s then [c] else [])"
  by (induction servers) (auto simp: first_server_def calls_of_dict_append)

lemma distinct_add_to_server:
  "distinct (map fst d) \<Longrightarrow> distinct (map fst (add_to_server servers name c d))"
  by (induction servers) (auto simp: distinct_dict_append)

lemma calls_of_gather_tools:
  "calls_of (gather_tools servers name c tools d) s
     = calls_of d s @ (if first_server servers name = Some s
                       then replicate (length (filter (\<lambda>tool. tool_matches tool c) tools)) c else [])"
proof (induction tools arbitrary: d)
  case Nil
  then show ?case by simp
next
  case (Cons t tools)
  show ?case
    by (simp add: Cons.IH calls_of_add_to_server replicate_app_Cons_same)
qed

lemma distinct_gather_tools:
  "distinct (map fst d) \<Longrightarrow> distinct (map fst (gather_tools servers name c tools d))"
  by (induction tools arbitrary: d) (auto simp: distinct_add_to_server)

lemma count_list_replicate: "count_list (replicate n x) y = (if x = y then n else 0)"
  by (induction n) auto

lemma count_list_concat: "count_list (concat xss) y = sum_list (map (\<lambda>xs. count_list xs y) xss)"
  by (induction xss) auto

lemma calls_of_gather_call:
  "calls_of (gather_call servers mcp_tools c d) s
     = calls_of d s @ replicate (count_list (routes servers mcp_tools c) s) c"
proof (induction mcp_tools arbitrary: d)
  case Nil
  then show ?case by (simp add: routes_def)
next
  case (Cons a mcp_tools)
  obtain name tools where a: "a = (name, tools)" by (cases a)
  have r: "count_list (routes servers (a # mcp_tools) c) s
        = (if first_server servers name = Some s
           then length (filter (\<lambda>tool. tool_matches tool c) tools) else 0)
          + count_list (routes servers mcp_tools c) s"
    by (auto simp: routes_def a count_list_replicate split: option.splits)
  show ?case
    by (simp add: a Cons.IH calls_of_gather_tools r [unfolded a] replicate_add del: count_list.simps)
qed

lemma distinct_gather_call:
  "distinct (map fst d) \<Longrightarrow> distinct (map fst (gather_call servers mcp_tools c d))"
proof (induction mcp_tools arbitrary: d)
  case Nil
  then show ?case by simp
next
  case (Cons a mcp_tools)
  then show ?case by (cases a) (simp add: distinct_gather_tools)
qed

lemma calls_of_gather_calls:
  "calls_of (gather_calls servers mcp_tools calls d) s
     = calls_of d s
       @ concat (map (\<lambda>c. replicate (count_list (routes servers mcp_tools c) s) c) calls)"
  by (induction calls arbitrary: d) (simp_all add: calls_of_gather_call)

lemma distinct_gather_calls:
  "distinct (map fst d) \<Longrightarrow> distinct (map fst (gather_calls servers mcp_tools calls d))"
  by (induction calls arbitrary: d) (simp_all add: distinct_gather_call)

lemma routes_no_match:
  "\<forall>entry \<in> set mcp_tools. \<forall>tool \<in> set (snd entry). \<not> tool_matches tool c \<Longrightarrow>
   routes servers mcp_tools c = []"
  by (auto simp: routes_def filter_empty_conv split: option.splits)


lemma count_list_expanded:
  "count_list (concat (map (\<lambda>c'. replicate (f c') c') xs)) c = f c * count_list xs c"
  by (induction xs) (simp_all add: count_list_replicate)

lemma exec_one_call_id: "tool_call_id (fst (exec_one_call split r server c s)) = tc_id c"
  by (simp add: exec_one_call_def success_response_def error_response_def
           split: prod.splits outcome.splits)

lemma exec_calls_ids:
  "map tool_call_id (fst (exec_calls split r server calls s)) = map tc_id calls"
proof (induction calls arbitrary: s)
  case Nil
  then show ?case by simp
next
  case (Cons c calls)
  obtain resp ws s' where one: "exec_one_call split r server c s = (resp, ws, s')"
    by (cases "exec_one_call split r server c s")
  obtain resps ws' s'' where rest: "exec_calls split r server calls s' = (resps, ws', s'')"
    by (cases "exec_calls split r server calls s'")
  have "tool_call_id resp = tc_id c"
    using exec_one_call_id [of split r server c s] one by simp
  moreover have "map tool_call_id resps = map tc_id calls"
    using Cons.IH [of s'] rest by simp
  ultimately show ?case by (simp add: one rest)
qed

lemma exec_server_tools_ids:
  "map tool_call_id (fst (exec_server_tools split r server calls s)) = map tc_id calls"
proof (cases "connect r s")
  case (Pair out s')
  show ?thesis
  proof (cases out)
    case (Returns u)
    obtain resps ws s'' where rest: "exec_calls split r server calls s' = (resps, ws, s'')"
      by (cases "exec_calls split r server calls s'")
    then show ?thesis
      using exec_calls_ids [of split r server calls s']
      by (simp add: exec_server_tools_def Pair Returns)
  next
    case (Raises e)
    then show ?thesis
      by (simp add: exec_server_tools_def Pair connection_error_responses_def comp_def)
  qed
qed

text \<open>
  C1, as stated, fails: \<open>alpha\<close> and \<open>beta\<close> both advertise \<open>search\<close>, and the call
  of \<open>Search\<close> is placed in the dispatch lists of both.
\<close>

theorem routing_first_server_counterexample:
  "gather_server_tool_calls [server_a, server_b]
     [(''alpha'', [search_tool]), (''beta'', [search_tool])] [call_search]
   = Some [(server_a, [call_search]), (server_b, [call_search])]"
  by (simp add: gather_server_tool_calls_def tool_matches_def tool_name_from_schema_def
        search_tool_def call_search_def server_a_def server_b_def lower_def lower_char_def)

text \<open>
  C1, amended. The dispatch dictionary has one entry per server object. The list of a
  server holds each call once for every advertisement of a tool whose name matches the
  call's function name without regard to case and whose advertiser's name leads to that
  server, in the order of the calls. So a call with exactly one such advertisement is
  in exactly one list, as often as it occurs among the calls; a call that matches no
  advertised tool is in no list; and executing a list gives responses for the calls of
  that list only, one each.
\<close>

theorem routing_reaches_every_advertiser:
  assumes "gather_server_tool_calls servers mcp_tools calls = Some d"
  shows "distinct (map fst d)
       \<and> (\<forall>s. calls_of d s
               = concat (map (\<lambda>c. replicate (count_list (routes servers mcp_tools c) s) c) calls))
       \<and> (\<forall>c s. routes servers mcp_tools c = [s] \<longrightarrow>
               (\<forall>s'. count_list (calls_of d s') c = (if s' = s then count_list calls c else 0)))
       \<and> (\<forall>c. (\<forall>entry \<in> set mcp_tools. \<forall>tool \<in> set (snd entry). \<not> tool_matches tool c) \<longrightarrow>
               (\<forall>s. c \<notin> set (calls_of d s)))
       \<and> (\<forall>s split r x.
             map tool_call_id (fst (exec_server_tools split r s (calls_of d s) x))
               = map tc_id (calls_of d s))"
proof -
  have d: "d = gather_calls servers mcp_tools calls []"
    using assms by (simp add: gather_server_tool_calls_def split: if_splits)
  have keys: "distinct (map fst d)"
    unfolding d by (rule distinct_gather_calls) simp
  have lists: "calls_of d s
                 = concat (map (\<lambda>c. replicate (count_list (routes servers mcp_tools c) s) c) calls)"
    for s
    by (simp only: d calls_of_gather_calls calls_of_Nil append_Nil)
  have counts: "count_list (calls_of d s') c
                  = count_list (routes servers mcp_tools c) s' * count_list calls c"
    for s' c
    by (simp only: lists count_list_expanded)
  have single: "count_list (calls_of d s') c = (if s' = s then count_list calls c else 0)"
    if "routes servers mcp_tools c = [s]" for c s s'
    by (simp add: counts that)
  have none: "c \<notin> set (calls_of d s)"
    if "\<forall>entry \<in> set mcp_tools. \<forall>tool \<in> set (snd entry). \<not> tool_matches tool c" for c s
  proof -
    have "routes servers mcp_tools c = []" using that by (rule routes_no_match)
    then have "count_list (calls_of d s) c = 0" by (simp add: counts)
    then show ?thesis by (simp add: count_list_0_iff)
  qed
  show ?thesis
  proof (intro conjI allI impI)
    show "distinct (map fst d)" by (rule keys)
  next
    fix s
    show "calls_of d s
            = concat (map (\<lambda>c. replicate (count_list (routes servers mcp_tools c) s) c) calls)"
      by (rule lists)
  next
    fix c s s'
    assume "routes servers mcp_tools c = [s]"
    then show "count_list (calls_of d s') c = (if s' = s then count_list calls c else 0)"
      by (rule single)
  next
    fix c s
    assume "\<forall>entry \<in> set mcp_tools. \<forall>tool \<in> set (snd entry). \<not> tool_matches tool c"
    then show "c \<notin> set (calls_of d s)" by (rule none)
  next
    fix s :: mcp_server and split r and x :: 'a
    show "map tool_call_id (fst (exec_server_tools split r s (calls_of d s) x))
            = map tc_id (calls_of d s)"
      by (rule exec_server_tools_ids)
  qed
qed

theorem routing_reaches_every_advertiser_witness:
  "tool_matches search_tool call_search
   \<and> gather_server_tool_calls [server_a, server_b] [(''alpha'', [search_tool])]
         [call_search, call_fetch] = Some [(server_a, [call_search])]
   \<and> calls_of [(server_a, [call_search])] server_a = [call_search]
   \<and> call_fetch \<notin> set (calls_of [(server_a, [call_search])] server_a)
   \<and> call_fetch \<notin> set (calls_of [(server_a, [call_search])] server_b)"
proof -
  have m: "tool_matches search_tool call_search"
    by (simp add: tool_matches_def tool_name_from_schema_def search_tool_def call_search_def
          lower_def lower_char_def)
  have g: "gather_server_tool_calls [server_a, server_b] [(''alpha'', [search_tool])]
             [call_search, call_fetch] = Some [(server_a, [call_search])]"
    by (simp add: gather_server_tool_calls_def tool_matches_def tool_name_from_schema_def
          search_tool_def call_search_def call_fetch_def server_a_def server_b_def
          lower_def lower_char_def)
  have nomatch: "\<forall>entry \<in> set [(''alpha'', [search_tool])]. \<forall>tool \<in> set (snd entry).
                   \<not> tool_matches tool call_fetch"
    by (simp add: tool_matches_def tool_name_from_schema_def search_tool_def call_fetch_def
          lower_def lower_char_def)
  have r: "routes [server_a, server_b] [(''alpha'', [search_tool])] call_search = [server_a]"
    using m by (simp add: routes_def first_server_def server_a_def)
  have t: "\<forall>c. (\<forall>entry \<in> set [(''alpha'', [search_tool])]. \<forall>tool \<in> set (snd entry).
                   \<not> tool_matches tool c) \<longrightarrow>
               (\<forall>s. c \<notin> set (calls_of [(server_a, [call_search])] s))"
    using routing_reaches_every_advertiser [OF g] by (elim conjE)
  have none: "call_fetch \<notin> set (calls_of [(server_a, [call_search])] s)" for s
    using t [THEN spec, THEN mp, OF nomatch, THEN spec] .
  have one: "calls_of [(server_a, [call_search])] server_a = [call_search]"
    by (simp add: calls_of_def)
  show ?thesis using m g one none [of server_a] none [of server_b] by simp
qed

lemma exec_calls_Cons:
  "fst (exec_calls split r server (c # post) s)
     = fst (exec_one_call split r server c s)
       # fst (exec_calls split r server post (snd (snd (exec_one_call split r server c s))))"
  by (simp add: Let_def split: prod.splits)

lemma exec_calls_Cons_state:
  "snd (snd (exec_calls split r server (c # post) s))
     = snd (snd (exec_calls split r server post (snd (snd (exec_one_call split r server c s)))))"
  by (simp add: Let_def split: prod.splits)

lemma exec_calls_append_fst:
  "fst (exec_calls split r server (pre @ post) s)
     = fst (exec_calls split r server pre s)
       @ fst (exec_calls split r server post (snd (snd (exec_calls split r server pre s))))"
proof (induction pre arbitrary: s)
  case Nil
  show ?case by simp
next
  case (Cons a pre)
  show ?case
    by (simp add: exec_calls_Cons exec_calls_Cons_state Cons.IH del: exec_calls.simps)
qed

lemma exec_one_call_outcome:
  "fst (exec_one_call split r server c s)
     = (case fst (call_each r c (fst (parse_arguments split c)) s) of
          Returns results \<Rightarrow> success_response c results
        | Raises e \<Rightarrow> error_response c e)"
  by (simp add: exec_one_call_def split: prod.splits outcome.splits)

lemma exec_server_tools_connected:
  "connect r s = (Returns u, s') \<Longrightarrow>
   fst (exec_server_tools split r server calls s) = fst (exec_calls split r server calls s')"
  by (simp add: exec_server_tools_def split: prod.splits)

lemma exec_server_tools_not_connected:
  "connect r s = (Raises e, s') \<Longrightarrow>
   fst (exec_server_tools split r server calls s)
     = connection_error_responses (connection_error server e) calls"
  by (simp add: exec_server_tools_def)

lemma strip_braces: "strip ''{}'' = ''{}''"
  by (simp add: strip_def rstrip_def lstrip_def isspace_def)

lemma parse_arguments_sample:
  "parse_arguments split0 call_search = ([JObject []], [])"
  "parse_arguments split0 call_fetch = ([JObject []], [])"
  by (simp_all add: parse_arguments_def call_search_def call_fetch_def strip_braces split0_def
        json_eval)

text \<open>
  C7, as stated, fails: the connection drops during the call of \<open>Search\<close>, and the
  call of \<open>fetch\<close> that remains still runs (the remote side has seen two calls) and
  gets its success payload, while \<open>Search\<close> gets its own error text.
\<close>

theorem remote_disconnect_counterexample:
  "fst (call_openai_tool remote0 call_search (JObject []) 0)
     = Raises (Exception RemoteProtocolError ''peer closed'')
   \<and> exec_server_tools split0 remote0 server_a [call_search, call_fetch] 0
       = ([error_response call_search (Exception RemoteProtocolError ''peer closed''),
           success_response call_fetch [''ok'']],
          [Tool_warning (''Executing Search on alpha failed: '' @ [CHR 0x0A] @ ''  Error: peer closed''
                         @ [CHR 0x0A])],
          2)"
proof -
  have n: "fn_name (tc_function call_search) = ''Search''" "fn_name (tc_function call_fetch) = ''fetch''"
    by (simp_all add: call_search_def call_fetch_def)
  have a: "fst (call_openai_tool remote0 call_search (JObject []) 0)
             = Raises (Exception RemoteProtocolError ''peer closed'')"
    by (simp add: remote0_def n)
  have conn: "connect remote0 0 = (Returns (), 0)" "disconnect remote0 (Suc (Suc 0)) = 2"
    by (simp_all add: remote0_def)
  have one: "exec_one_call split0 remote0 server_a call_search 0
               = (error_response call_search (Exception RemoteProtocolError ''peer closed''),
                  [Tool_warning (''Executing Search on alpha failed: '' @ [CHR 0x0A]
                                 @ ''  Error: peer closed'' @ [CHR 0x0A])], Suc 0)"
    by (simp add: exec_one_call_def parse_arguments_sample remote0_def n server_a_def)
  have two: "exec_one_call split0 remote0 server_a call_fetch (Suc 0)
               = (success_response call_fetch [''ok''], [], Suc (Suc 0))"
    by (simp add: exec_one_call_def parse_arguments_sample remote0_def n)
  have b: "exec_server_tools split0 remote0 server_a [call_search, call_fetch] 0
       = ([error_response call_search (Exception RemoteProtocolError ''peer closed''),
           success_response call_fetch [''ok'']],
          [Tool_warning (''Executing Search on alpha failed: '' @ [CHR 0x0A] @ ''  Error: peer closed''
                         @ [CHR 0x0A])],
          2)"
    by (simp add: exec_server_tools_def conn one two)
  show ?thesis using a b by simp
qed

lemma exec_calls_append_state:
  "snd (snd (exec_calls split r server (pre @ post) s))
     = snd (snd (exec_calls split r server post (snd (snd (exec_calls split r server pre s)))))"
proof (induction pre arbitrary: s)
  case Nil
  show ?case by simp
next
  case (Cons a pre)
  show ?case
    by (simp add: exec_calls_Cons_state Cons.IH del: exec_calls.simps)
qed

lemma exec_one_call_state:
  "snd (snd (exec_one_call split r server c s))
     = snd (call_each r c (fst (parse_arguments split c)) s)"
  by (simp add: exec_one_call_def split: prod.splits outcome.splits)

lemma exec_server_tools_connected_all:
  "connect r s = (Returns u, s') \<Longrightarrow>
   exec_server_tools split r server calls s
     = (fst (exec_calls split r server calls s'),
        fst (snd (exec_calls split r server calls s')),
        disconnect r (snd (snd (exec_calls split r server calls s'))))"
  by (simp add: exec_server_tools_def split: prod.splits)

lemma exec_server_tools_not_connected_all:
  "connect r s = (Raises e, s') \<Longrightarrow>
   exec_server_tools split r server calls s
     = (connection_error_responses (connection_error server e) calls,
        [Tool_warning (connection_error server e)], disconnect r s')"
  by (simp add: exec_server_tools_def)

text \<open>
  C7, amended. Once the server is connected, the responses and warnings are those of
  the calls in order, and the server is disconnected from the state the last call left.
  Each call gives one response, its success payload or, when anything raised during it
  (a remote disconnect included), its own error text, and leaves the remote side as its
  remote calls left it; the calls after it still run, from that state. When connecting
  raises, no call runs: the remote side goes from the failed connect straight to the
  disconnect, one warning is written, and every routed call gets the same
  connection-error text, the "disconnected unexpectedly" text for a remote disconnect
  and the "could not connect" text otherwise. In all cases the responses carry the
  identifiers of the routed calls, one each, in order.
\<close>

theorem exec_server_tools_responses:
  "(\<forall>u s'. connect r s = (Returns u, s') \<longrightarrow>
       exec_server_tools split r server calls s
         = (fst (exec_calls split r server calls s'),
            fst (snd (exec_calls split r server calls s')),
            disconnect r (snd (snd (exec_calls split r server calls s')))))
   \<and> (\<forall>pre c post s0.
         fst (exec_calls split r server (pre @ c # post) s0)
           = fst (exec_calls split r server pre s0)
             @ fst (exec_one_call split r server c (snd (snd (exec_calls split r server pre s0))))
             # fst (exec_calls split r server post
                      (snd (snd (exec_one_call split r server c
                                   (snd (snd (exec_calls split r server pre s0)))))))
         \<and> snd (snd (exec_calls split r server (pre @ c # post) s0))
             = snd (snd (exec_calls split r server post
                      (snd (snd (exec_one_call split r server c
                                   (snd (snd (exec_calls split r server pre s0)))))))))
   \<and> (\<forall>c s0. fst (exec_one_call split r server c s0)
                = (case fst (call_each r c (fst (parse_arguments split c)) s0) of
                     Returns results \<Rightarrow> success_response c results
                   | Raises e \<Rightarrow> error_response c e)
              \<and> snd (snd (exec_one_call split r server c s0))
                = snd (call_each r c (fst (parse_arguments split c)) s0))
   \<and> (\<forall>e s'. connect r s = (Raises e, s') \<longrightarrow>
         exec_server_tools split r server calls s
           = (connection_error_responses (connection_error server e) calls,
              [Tool_warning (connection_error server e)], disconnect r s'))
   \<and> map tool_call_id (fst (exec_server_tools split r server calls s)) = map tc_id calls"
proof (intro conjI allI impI)
  fix u s'
  assume "connect r s = (Returns u, s')"
  then show "exec_server_tools split r server calls s
         = (fst (exec_calls split r server calls s'),
            fst (snd (exec_calls split r server calls s')),
            disconnect r (snd (snd (exec_calls split r server calls s'))))"
    by (rule exec_server_tools_connected_all)
next
  fix pre c post s0
  show "fst (exec_calls split r server (pre @ c # post) s0)
           = fst (exec_calls split r server pre s0)
             @ fst (exec_one_call split r server c (snd (snd (exec_calls split r server pre s0))))
             # fst (exec_calls split r server post
                      (snd (snd (exec_one_call split r server c
                                   (snd (snd (exec_calls split r server pre s0)))))))"
    by (simp only: exec_calls_append_fst exec_calls_Cons)
next
  fix pre c post s0
  show "snd (snd (exec_calls split r server (pre @ c # post) s0))
             = snd (snd (exec_calls split r server post
                      (snd (snd (exec_one_call split r server c
                                   (snd (snd (exec_calls split r server pre s0))))))))"
    by (simp only: exec_calls_append_state exec_calls_Cons_state)
next
  fix c s0
  show "fst (exec_one_call split r server c s0)
                = (case fst (call_each r c (fst (parse_arguments split c)) s0) of
                     Returns results \<Rightarrow> success_response c results
                   | Raises e \<Rightarrow> error_response c e)"
    by (rule exec_one_call_outcome)
next
  fix c s0
  show "snd (snd (exec_one_call split r server c s0))
                = snd (call_each r c (fst (parse_arguments split c)) s0)"
    by (rule exec_one_call_state)
next
  fix e s'
  assume "connect r s = (Raises e, s')"
  then show "exec_server_tools split r server calls s
           = (connection_error_responses (connection_error server e) calls,
              [Tool_warning (connection_error server e)], disconnect r s')"
    by (rule exec_server_tools_not_connected_all)
next
  show "map tool_call_id (fst (exec_server_tools split r server calls s)) = map tc_id calls"
    by (rule exec_server_tools_ids)
qed

text \<open>
  The remote side counts its calls. When connecting fails the count stays 0 and both
  calls get the connection error; when it succeeds, the call of \<open>fetch\<close> runs and the
  count is 1.
\<close>

theorem exec_server_tools_responses_witness:
  "connect remote_down 0 = (Raises (Exception RemoteProtocolError ''reset''), 0)
   \<and> exec_server_tools split0 remote_down server_a [call_search, call_fetch] 0
       = ([\<lparr>tr_role = ''tool'', tool_call_id = ''call_1'',
            tr_content = ''Server alpha disconnected unexpectedly: reset''\<rparr>,
           \<lparr>tr_role = ''tool'', tool_call_id = ''call_2'',
            tr_content = ''Server alpha disconnected unexpectedly: reset''\<rparr>],
          [Tool_warning ''Server alpha disconnected unexpectedly: reset''], 0)
   \<and> connect remote0 0 = (Returns (), 0)
   \<and> exec_server_tools split0 remote0 server_a [call_fetch] 0
       = ([success_response call_fetch [''ok'']], [], Suc 0)"
proof -
  have down: "connect remote_down 0 = (Raises (Exception RemoteProtocolError ''reset''), 0)"
    by (simp add: remote_down_def)
  have up: "connect remote0 0 = (Returns (), 0)"
    by (simp add: remote0_def)
  have t1: "\<forall>e s'. connect remote_down 0 = (Raises e, s') \<longrightarrow>
         exec_server_tools split0 remote_down server_a [call_search, call_fetch] 0
           = (connection_error_responses (connection_error server_a e) [call_search, call_fetch],
              [Tool_warning (connection_error server_a e)], disconnect remote_down s')"
    using exec_server_tools_responses [of remote_down 0 split0 server_a "[call_search, call_fetch]"]
    by (elim conjE)
  have a: "exec_server_tools split0 remote_down server_a [call_search, call_fetch] 0
           = (connection_error_responses
                (connection_error server_a (Exception RemoteProtocolError ''reset''))
                [call_search, call_fetch],
              [Tool_warning (connection_error server_a (Exception RemoteProtocolError ''reset''))],
              disconnect remote_down 0)"
    using t1 [THEN spec, THEN spec, THEN mp, OF down] .
  have c: "(connection_error_responses
                (connection_error server_a (Exception RemoteProtocolError ''reset''))
                [call_search, call_fetch],
              [Tool_warning (connection_error server_a (Exception RemoteProtocolError ''reset''))],
              disconnect remote_down 0)
           = ([\<lparr>tr_role = ''tool'', tool_call_id = ''call_1'',
                tr_content = ''Server alpha disconnected unexpectedly: reset''\<rparr>,
               \<lparr>tr_role = ''tool'', tool_call_id = ''call_2'',
                tr_content = ''Server alpha disconnected unexpectedly: reset''\<rparr>],
              [Tool_warning ''Server alpha disconnected unexpectedly: reset''], 0)"
    by (simp add: connection_error_responses_def connection_error_def server_a_def
          call_search_def call_fetch_def remote_down_def remote0_def)
  have t2: "\<forall>u s'. connect remote0 0 = (Returns u, s') \<longrightarrow>
       exec_server_tools split0 remote0 server_a [call_fetch] 0
         = (fst (exec_calls split0 remote0 server_a [call_fetch] s'),
            fst (snd (exec_calls split0 remote0 server_a [call_fetch] s')),
            disconnect remote0 (snd (snd (exec_calls split0 remote0 server_a [call_fetch] s'))))"
    using exec_server_tools_responses [of remote0 0 split0 server_a "[call_fetch]"]
    by (elim conjE)
  note b = t2 [THEN spec, THEN spec, THEN mp, OF up]
  have n: "fn_name (tc_function call_fetch) = ''fetch''" by (simp add: call_fetch_def)
  have one: "exec_one_call split0 remote0 server_a call_fetch 0
               = (success_response call_fetch [''ok''], [], Suc 0)"
    by (simp add: exec_one_call_def parse_arguments_sample remote0_def n)
  have x: "exec_calls split0 remote0 server_a [call_fetch] 0
             = ([success_response call_fetch [''ok'']], [], Suc 0)"
    by (simp add: one)
  have disc: "disconnect remote0 (Suc 0) = Suc 0" by (simp add: remote0_def)
  have d: "exec_server_tools split0 remote0 server_a [call_fetch] 0
             = ([success_response call_fetch [''ok'']], [], Suc 0)"
    using b [unfolded x] by (simp add: disc)
  show ?thesis
    by (intro conjI) (rule down, rule trans [OF a c], rule up, rule d)
qed


section \<open>Properties of summarization and compaction\<close>

lemma emit_fields [simp]:
  "done_messages (emit events rt) = done_messages rt"
  "summarizer_thread (emit events rt) = summarizer_thread rt"
  "runtime_log (emit events rt) = runtime_log rt @ events"
  by (simp_all add: emit_def)

lemma emit_emit: "emit es2 (emit es1 rt) = emit (es1 @ es2) rt"
  by (simp add: emit_def)

lemma worker_step_done [simp]: "done_messages (worker_step sm rt) = done_messages rt"
  by (simp add: worker_step_def summarize_worker_rest_def emit_def Let_def
           split: option.splits worker.splits outcome.splits)

lemma worker_step_snapshot:
  "summarizer_thread rt = Some w \<Longrightarrow> w \<noteq> Started \<Longrightarrow>
   summarizing_messages (worker_step sm rt) = summarizing_messages rt"
  by (cases w) (simp_all add: worker_step_def summarize_worker_rest_def emit_def Let_def
           split: option.splits outcome.splits)

lemma worker_step_thread:
  "summarizer_thread rt = Some w \<Longrightarrow> w \<noteq> Started \<Longrightarrow>
   summarizer_thread (worker_step sm rt) = Some Finished"
  by (cases w) (simp_all add: worker_step_def summarize_worker_rest_def emit_def Let_def
           split: option.splits outcome.splits)

lemma thread_join_done [simp]: "done_messages (thread_join sm rt) = done_messages rt"
  by (simp add: thread_join_def)

lemma thread_join_snapshot:
  "summarizer_thread rt = Some w \<Longrightarrow> w \<noteq> Started \<Longrightarrow>
   summarizing_messages (thread_join sm rt) = summarizing_messages rt"
  by (simp add: thread_join_def worker_step_snapshot worker_step_thread)

text \<open>
  C5. Once the worker has taken its snapshot (it is past its first line, or finished),
  \<open>summarize_end\<close> compares the snapshot with the live done messages. If messages
  were appended to the live list in between, the list after \<open>summarize_end\<close> is the
  live list, new messages included, and the summary is dropped. If the live list is
  still the snapshot, the list after \<open>summarize_end\<close> is what the worker left in
  \<open>summarized_done_messages\<close>: the summary, when \<open>summarize\<close> returned one.
\<close>

theorem summarize_end_check_and_swap:
  assumes "summarizer_thread rt = Some w" and "w \<noteq> Started"
    and "summarizing_messages rt = Some snapshot"
  shows "(done_messages rt = snapshot @ new \<and> new \<noteq> [] \<longrightarrow>
            done_messages (summarize_end sm rt) = snapshot @ new)
       \<and> (done_messages rt = snapshot \<longrightarrow>
            done_messages (summarize_end sm rt) = summarized_done_messages (thread_join sm rt))
       \<and> (done_messages rt = snapshot \<and> w = Snapshot_taken
            \<and> summarize sm snapshot = Returns summary \<longrightarrow>
            done_messages (summarize_end sm rt) = summary)"
proof -
  have snap: "summarizing_messages (thread_join sm rt) = Some snapshot"
    using assms by (simp add: thread_join_snapshot)
  have stale: "done_messages (summarize_end sm rt) = snapshot @ new"
    if "done_messages rt = snapshot @ new" "new \<noteq> []"
    using that assms(1) snap by (simp add: summarize_end_def Let_def)
  have swap: "done_messages (summarize_end sm rt) = summarized_done_messages (thread_join sm rt)"
    if "done_messages rt = snapshot"
    using that assms(1) snap by (simp add: summarize_end_def Let_def)
  have result: "summarized_done_messages (thread_join sm rt) = summary"
    if "w = Snapshot_taken" "summarize sm snapshot = Returns summary"
    using that assms(1,3)
    by (simp add: thread_join_def worker_step_def summarize_worker_rest_def emit_def Let_def)
  show ?thesis using stale swap result by simp
qed

text \<open>
  The worker starts on \<open>[m1, m2]\<close> and takes its snapshot; then \<open>m3\<close> is appended,
  and \<open>summarize_end\<close> keeps \<open>[m1, m2, m3]\<close>. Without the append it swaps in the
  summary \<open>[m3]\<close>.
\<close>

theorem summarize_end_check_and_swap_witness:
  "done_messages
     (summarize_end sm0
        ((worker_step sm0 (rt0\<lparr>summarizer_thread := Some Started\<rparr>))
           \<lparr>done_messages := [m1, m2] @ [m3]\<rparr>)) = [m1, m2] @ [m3]
   \<and> done_messages
       (summarize_end sm0 (worker_step sm0 (rt0\<lparr>summarizer_thread := Some Started\<rparr>))) = [m3]"
proof -
  let ?rt1 = "worker_step sm0 (rt0\<lparr>summarizer_thread := Some Started\<rparr>)"
  let ?rt2 = "?rt1\<lparr>done_messages := [m1, m2] @ [m3]\<rparr>"
  have t1: "summarizer_thread ?rt1 = Some Snapshot_taken"
    and s1: "summarizing_messages ?rt1 = Some [m1, m2]"
    and d1: "done_messages ?rt1 = [m1, m2]"
    by (simp_all add: worker_step_def rt0_def)
  have t2: "summarizer_thread ?rt2 = Some Snapshot_taken"
    and s2: "summarizing_messages ?rt2 = Some [m1, m2]"
    and d2: "done_messages ?rt2 = [m1, m2] @ [m3]"
    using t1 s1 by simp_all
  have ne: "Snapshot_taken \<noteq> Started" "[m3] \<noteq> []" by simp_all
  have sum: "summarize sm0 [m1, m2] = Returns [m3]" by (simp add: sm0_def)
  have a: "done_messages (summarize_end sm0 ?rt2) = [m1, m2] @ [m3]"
    using summarize_end_check_and_swap [OF t2 ne(1) s2, of "[m3]" sm0 "[m3]"] d2 ne(2) by blast
  have b: "done_messages (summarize_end sm0 ?rt1) = [m3]"
    using summarize_end_check_and_swap [OF t1 ne(1) s1, of "[m3]" sm0 "[m3]"] d1 sum by blast
  show ?thesis using a b by blast
qed

lemma summary_or_exception_emit [simp]:
  "summary_or_exception sm (emit events rt) = summary_or_exception sm rt"
  by (simp add: summary_or_exception_def emit_def)

lemma summarize_end_no_thread: "summarizer_thread rt = None \<Longrightarrow> summarize_end sm rt = rt"
  by (simp add: summarize_end_def)

lemma summarize_start_done:
  "summarizer_thread rt = None \<or> \<not> check_max_tokens sm (done_messages rt) None \<Longrightarrow>
   done_messages (summarize_start sm rt) = done_messages rt"
  by (auto simp: summarize_start_def summarize_end_no_thread emit_def Let_def)

lemma summarize_start_thread:
  "summarizer_thread (summarize_start sm rt) =
     (if check_max_tokens sm (done_messages rt) None then Some Started else summarizer_thread rt)"
  by (simp add: summarize_start_def Let_def)

lemma summary_or_exception_nonempty: "summary_or_exception sm rt = Returns text \<Longrightarrow> text \<noteq> []"
  by (auto simp: summary_or_exception_def split: outcome.splits option.splits if_splits)

text \<open>
  C6, as stated, fails: compaction is triggered on \<open>rt0\<close>, the summary is empty, and
  afterwards no summarizer thread exists, because the done messages do not exceed the
  summarizer's own bound.
\<close>

theorem compaction_fallback_counterexample:
  "enable_context_compaction rt0
   \<and> check_max_tokens sm0 (done_messages rt0) (Some (context_compaction_max_tokens rt0))
   \<and> summarize_all_as_text sm0 (done_messages rt0) (compaction_prompt rt0)
         (context_compaction_summary_tokens rt0) = Returns (Some [])
   \<and> summarizer_thread (compact_context_if_needed sm0 rt0) = None"
  by (simp add: rt0_def sm0_def compact_context_if_needed_def summary_or_exception_def
        summarize_start_def emit_def)

text \<open>
  C6, amended. When compaction is triggered and the summary text is not empty, the done
  messages become the two summary messages. When the summarizer raises or the summary
  is empty, the two warnings are written and \<open>summarize_start\<close> runs on the state: it
  starts a background summarization exactly when the done messages exceed the
  summarizer's own bound, and the done messages are as before compaction whenever no
  earlier background summarization is pending or that bound is not exceeded.
\<close>

theorem compaction_replaces_or_falls_back:
  assumes "enable_context_compaction rt"
    and "check_max_tokens sm (done_messages rt) (Some (context_compaction_max_tokens rt))"
  shows "(summary_or_exception sm rt = Returns text \<longrightarrow>
            text \<noteq> [] \<and>
            done_messages (compact_context_if_needed sm rt) = summary_messages text \<and>
            summarizer_thread (compact_context_if_needed sm rt) = summarizer_thread rt)
       \<and> (summary_or_exception sm rt = Raises e \<longrightarrow>
            compact_context_if_needed sm rt
              = summarize_start sm
                  (emit [Tool_output ''Compacting chat history to make room for new messages...'',
                         Tool_warning (''Context compaction failed: '' @ exception_str e),
                         Tool_warning ''Proceeding with full history for now.''] rt) \<and>
            (summarizer_thread rt = None \<or> \<not> check_max_tokens sm (done_messages rt) None \<longrightarrow>
               done_messages (compact_context_if_needed sm rt) = done_messages rt) \<and>
            summarizer_thread (compact_context_if_needed sm rt)
              = (if check_max_tokens sm (done_messages rt) None then Some Started
                 else summarizer_thread rt))"
proof -
  let ?warned = "emit [Tool_output ''Compacting chat history to make room for new messages...'',
                       Tool_warning (''Context compaction failed: '' @ exception_str e),
                       Tool_warning ''Proceeding with full history for now.''] rt"
  have ok: "text \<noteq> [] \<and> done_messages (compact_context_if_needed sm rt) = summary_messages text
            \<and> summarizer_thread (compact_context_if_needed sm rt) = summarizer_thread rt"
    if "summary_or_exception sm rt = Returns text"
    using that assms summary_or_exception_nonempty [OF that]
    by (simp add: compact_context_if_needed_def Let_def)
  have fallback: "compact_context_if_needed sm rt = summarize_start sm ?warned"
    if "summary_or_exception sm rt = Raises e"
    using that assms
    by (simp add: compact_context_if_needed_def emit_emit Let_def)
  have same: "done_messages (summarize_start sm ?warned) = done_messages rt"
    if "summarizer_thread rt = None \<or> \<not> check_max_tokens sm (done_messages rt) None"
    using that summarize_start_done [of ?warned sm]
    by simp
  have thread: "summarizer_thread (summarize_start sm ?warned)
                  = (if check_max_tokens sm (done_messages rt) None then Some Started
                     else summarizer_thread rt)"
    by (simp add: summarize_start_thread)
  show ?thesis using ok fallback same thread by simp
qed

theorem compaction_replaces_or_falls_back_witness:
  "enable_context_compaction rt0
   \<and> check_max_tokens sm0 (done_messages rt0) (Some (context_compaction_max_tokens rt0))
   \<and> summary_or_exception sm0 rt0
       = Raises (Exception ValueError ''Summarization returned an empty result.'')
   \<and> summarizer_thread rt0 = None
   \<and> done_messages (compact_context_if_needed sm0 rt0) = done_messages rt0"
proof -
  have h1: "enable_context_compaction rt0" by (simp add: rt0_def)
  have h2: "check_max_tokens sm0 (done_messages rt0) (Some (context_compaction_max_tokens rt0))"
    by (simp add: rt0_def sm0_def)
  have h3: "summary_or_exception sm0 rt0
              = Raises (Exception ValueError ''Summarization returned an empty result.'')"
    by (simp add: rt0_def sm0_def summary_or_exception_def)
  have h4: "summarizer_thread rt0 = None" by (simp add: rt0_def)
  show ?thesis
    using compaction_replaces_or_falls_back
            [OF h1 h2, of "[]" "Exception ValueError ''Summarization returned an empty result.''"]
          h1 h2 h3 h4
    by blast
qed


section \<open>Properties of the file manager and the editor\<close>

lemma tell_simps [simp]:
  "io_log (tell es st) = io_log st @ es"
  "world (tell es st) = world st"
  "warning_given (tell es st) = warning_given st"
  "abs_fnames (tell es st) = abs_fnames st"
  "need_commit_before_edits (tell es st) = need_commit_before_edits st"
  "has_repo (tell es st) = has_repo st"
  "dirty_commits (tell es st) = dirty_commits st"
  "dry_run (tell es st) = dry_run st"
  "abs_root_path_cache (tell es st) = abs_root_path_cache st"
  by (simp_all add: tell_def)

lemma abs_root_path_fields [simp]:
  "io_log (snd (abs_root_path env p st)) = io_log st"
  "warning_given (snd (abs_root_path env p st)) = warning_given st"
  "abs_fnames (snd (abs_root_path env p st)) = abs_fnames st"
  "world (snd (abs_root_path env p st)) = world st"
  "has_repo (snd (abs_root_path env p st)) = has_repo st"
  "dirty_commits (snd (abs_root_path env p st)) = dirty_commits st"
  "dry_run (snd (abs_root_path env p st)) = dry_run st"
  "need_commit_before_edits (snd (abs_root_path env p st)) = need_commit_before_edits st"
  by (simp_all add: abs_root_path_def Let_def split: option.splits)

text \<open>
  C9. \<open>auto_commit\<close> returns nothing and leaves the state as it is (no commit) when
  there is no repository, auto-commit is off or dry-run is on. Otherwise it commits:
  a hash and a message give the "files edited" notice built from them, no result gives
  the "no edits" notice, and a git error is reported with \<open>tool_error\<close> and gives
  nothing.
\<close>

theorem auto_commit_outcomes:
  "(\<not> has_repo st \<or> \<not> auto_commits st \<or> dry_run st \<longrightarrow>
      auto_commit env edited context st = (None, st))
   \<and> (has_repo st \<and> auto_commits st \<and> \<not> dry_run st \<longrightarrow>
        (\<forall>commit_hash commit_message w.
           repo_commit env edited (Some (commit_context context st)) True (world st)
             = (Commit_returns (Some (commit_hash, commit_message)), w) \<longrightarrow>
           fst (auto_commit env edited context st)
             = Some (files_content_gpt_edits env commit_hash commit_message))
      \<and> (\<forall>w. repo_commit env edited (Some (commit_context context st)) True (world st)
             = (Commit_returns None, w) \<longrightarrow>
           fst (auto_commit env edited context st) = Some (files_content_gpt_no_edits env))
      \<and> (\<forall>err w. repo_commit env edited (Some (commit_context context st)) True (world st)
             = (Git_error err, w) \<longrightarrow>
           fst (auto_commit env edited context st) = None \<and>
           io_log (snd (auto_commit env edited context st))
             = io_log st @ [Repo_commit edited (Some (commit_context context st)) True,
                            Tool_error (''Unable to commit: '' @ err)]))"
  by (simp add: auto_commit_def Let_def)

theorem auto_commit_outcomes_witness:
  "auto_commit env0 {|''a.py''|} None (coder0\<lparr>dry_run := True\<rparr>) = (None, coder0\<lparr>dry_run := True\<rparr>)
   \<and> fst (auto_commit env0 {|''a.py''|} None coder0)
       = Some (files_content_gpt_edits env0 ''abc1234'' ''edit files'')
   \<and> fst (auto_commit env0 {||} None coder0) = Some (files_content_gpt_no_edits env0)"
proof -
  have flags: "has_repo coder0 \<and> auto_commits coder0 \<and> \<not> dry_run coder0"
    by (simp add: coder0_def)
  have dry: "dry_run (coder0\<lparr>dry_run := True\<rparr>)" by simp
  have c1: "repo_commit env0 {|''a.py''|} (Some (commit_context None coder0)) True (world coder0)
              = (Commit_returns (Some (''abc1234'', ''edit files'')), world coder0)"
    by (simp add: env0_def)
  have c2: "repo_commit env0 {||} (Some (commit_context None coder0)) True (world coder0)
              = (Commit_returns None, world coder0)"
    by (simp add: env0_def)
  have a: "auto_commit env0 {|''a.py''|} None (coder0\<lparr>dry_run := True\<rparr>)
             = (None, coder0\<lparr>dry_run := True\<rparr>)"
    using auto_commit_outcomes [of "coder0\<lparr>dry_run := True\<rparr>" env0 "{|''a.py''|}" None] dry
    by blast
  have b: "fst (auto_commit env0 {|''a.py''|} None coder0)
             = Some (files_content_gpt_edits env0 ''abc1234'' ''edit files'')"
    using auto_commit_outcomes [of coder0 env0 "{|''a.py''|}" None] flags c1 by blast
  have c: "fst (auto_commit env0 {||} None coder0) = Some (files_content_gpt_no_edits env0)"
    using auto_commit_outcomes [of coder0 env0 "{||}" None] flags c2 by blast
  show ?thesis using a b c by blast
qed

lemma check_added_files_log:
  "\<exists>extra. io_log (check_added_files env st) = io_log st @ extra \<and>
           (extra = [] \<and> warning_given (check_added_files env st) = warning_given st
            \<or> \<not> warning_given st \<and> extra = files_warning env
              \<and> warning_given (check_added_files env st))"
  by (simp add: check_added_files_def)

lemma fm_step_log:
  "\<exists>extra. io_log (fm_step env c st) = io_log st @ extra \<and>
           (extra = [] \<and> warning_given (fm_step env c st) = warning_given st
            \<or> \<not> warning_given st \<and> extra = files_warning env
              \<and> warning_given (fm_step env c st))"
proof (cases c)
  case (Add_rel_fname p)
  obtain full st1 where a: "abs_root_path env p st = (full, st1)"
    by (cases "abs_root_path env p st")
  have f: "io_log st1 = io_log st" "warning_given st1 = warning_given st"
    using abs_root_path_fields(1,2) [of env p st] a by simp_all
  show ?thesis
    using check_added_files_log [of env "st1\<lparr>abs_fnames := finsert full (abs_fnames st1)\<rparr>"] f
    by (simp add: Add_rel_fname add_rel_fname_def a)
next
  case (Drop_rel_fname p)
  obtain full st1 where a: "abs_root_path env p st = (full, st1)"
    by (cases "abs_root_path env p st")
  have f: "io_log st1 = io_log st" "warning_given st1 = warning_given st"
    using abs_root_path_fields(1,2) [of env p st] a by simp_all
  show ?thesis using f by (simp add: Drop_rel_fname drop_rel_fname_def a)
next
  case Check_added_files
  then show ?thesis using check_added_files_log [of env st] by simp
next
  case (Elsewhere f)
  then show ?thesis by simp
qed

lemma fm_calls_log:
  "\<exists>extra. io_log (fm_calls env cs st) = io_log st @ extra \<and>
           (extra = [] \<or> \<not> warning_given st \<and> extra = files_warning env)"
proof (induction cs arbitrary: st)
  case Nil
  then show ?case by simp
next
  case (Cons c cs)
  obtain e1 where e1: "io_log (fm_step env c st) = io_log st @ e1"
    "e1 = [] \<and> warning_given (fm_step env c st) = warning_given st
       \<or> \<not> warning_given st \<and> e1 = files_warning env \<and> warning_given (fm_step env c st)"
    using fm_step_log [of env c st] by blast
  obtain e2 where e2: "io_log (fm_calls env cs (fm_step env c st)) = io_log (fm_step env c st) @ e2"
    "e2 = [] \<or> \<not> warning_given (fm_step env c st) \<and> e2 = files_warning env"
    using Cons.IH [of "fm_step env c st"] by blast
  have "io_log (fm_calls env (c # cs) st) = io_log st @ (e1 @ e2)"
    using e1(1) e2(1) by simp
  moreover have "e1 @ e2 = [] \<or> \<not> warning_given st \<and> e1 @ e2 = files_warning env"
    using e1(2) e2(2) by auto
  ultimately show ?case by blast
qed

text \<open>
  C10. Once \<open>warning_given\<close> is set, \<open>check_added_files\<close> returns at once and changes
  nothing. With fewer than 4 files in the chat, or fewer than 20 * 1024 tokens in them,
  it changes nothing either, so it writes no warning. Over any sequence of calls of
  the file manager, whatever is added, dropped or changed on disk in between, what is
  written is nothing or the two lines of the warning, once, and nothing if the warning
  had been given before.
\<close>

theorem files_warning_at_most_once:
  "(warning_given st \<longrightarrow> check_added_files env st = st)
   \<and> (fcard (abs_fnames st) < 4 \<or> added_tokens env st < 20 * 1024 \<longrightarrow>
        check_added_files env st = st)
   \<and> (\<exists>extra. io_log (fm_calls env calls st) = io_log st @ extra \<and>
               (extra = [] \<or> \<not> warning_given st \<and> extra = files_warning env))"
  using fm_calls_log [of env calls st]
  by (simp add: check_added_files_def warn_number_of_files_def warn_number_of_tokens_def)

theorem files_warning_at_most_once_witness:
  "warning_given (coder0\<lparr>warning_given := True\<rparr>)
   \<and> check_added_files env0 (coder0\<lparr>warning_given := True\<rparr>) = coder0\<lparr>warning_given := True\<rparr>
   \<and> fcard (abs_fnames coder0) < 4
   \<and> check_added_files env0 coder0 = coder0"
proof -
  have g: "warning_given (coder0\<lparr>warning_given := True\<rparr>)" by simp
  have few: "fcard (abs_fnames coder0) < 4" by (simp add: coder0_def fcard_fempty)
  have a: "check_added_files env0 (coder0\<lparr>warning_given := True\<rparr>) = coder0\<lparr>warning_given := True\<rparr>"
    using files_warning_at_most_once [of "coder0\<lparr>warning_given := True\<rparr>" env0 "[]"] g by blast
  have b: "check_added_files env0 coder0 = coder0"
    using files_warning_at_most_once [of coder0 env0 "[]"] few by blast
  show ?thesis using g few a b by blast
qed



























text \<open>
  C3: the code does not do what the claim says. \<open>new.py\<close> is neither on disk nor in
  the chat, and the user of \<open>env0\<close> declines every prompt. Yet \<open>allowed_to_edit\<close>
  returns \<open>True\<close>, the file is created and staged and is in the chat, and no prompt
  was shown: the confirmation is called without \<open>await\<close>, so the condition tests a
  coroutine object, which is always true.
\<close>

theorem new_file_created_without_asking:
  "\<not> path_exists env0 (world coder0) (safe_abs_path env0 ''new.py'')
   \<and> safe_abs_path env0 ''new.py'' |\<notin>| abs_fnames coder0
   \<and> fst (ask_user env0 ''Create new file?'' ''new.py'' (world coder0)) = False
   \<and> fst (allowed_to_edit env0 ''new.py'' coder0) = True
   \<and> world (snd (allowed_to_edit env0 ''new.py'' coder0)) = {|''/repo/new.py''|}
   \<and> abs_fnames (snd (allowed_to_edit env0 ''new.py'' coder0)) = {|''/repo/new.py''|}
   \<and> io_log (snd (allowed_to_edit env0 ''new.py'' coder0))
       = [Touch_file ''/repo/new.py'', Git_add ''/repo/new.py'']"
  by (simp add: allowed_to_edit_def abs_root_path_def truth_value_def add_to_chat_def
        check_added_files_def stage_def tell_def warn_number_of_files_def fcard_fempty
        fcard_finsert_if Let_def coder0_def env0_def)

end
